theory Spec2Isabelle
  imports Complex_Main "HOL-Library.AList"
begin

section \<open>JavaScript numbers\<close>

text \<open>
  The controller (class \<open>Metrics\<close>, \<open>structures/Metrics\<close>) computes with JavaScript
  numbers, which are IEEE doubles. Two uses occur.

  A tally slot holds a count that starts at \<open>0\<close> and only ever takes \<open>++\<close>. Such a value
  is a non-negative integer, or \<open>NaN\<close> once \<open>++\<close> has been applied to something that is
  not a number. Integers are exact in a double up to \<open>2^53 = 9007199254740992\<close>; there
  \<open>n + 1\<close> rounds back to \<open>n\<close>.
\<close>

datatype count = Count nat | NaN

definition count_succ :: "count \<Rightarrow> count" where
  "count_succ c =
     (case c of
        Count n \<Rightarrow> Count (if n < 9007199254740992 then n + 1 else n)
      | NaN \<Rightarrow> NaN)"

text \<open>
  The CPU percentage is a quotient of two integer-valued doubles. \<open>Finite q\<close> stands
  for the double nearest to the rational \<open>q\<close>; the integer operands are exact (they stay
  far below \<open>2^53\<close>), so the only rounding is that of the final quotient. A zero divisor
  gives an infinity or \<open>NaN\<close>, as \<open>/\<close> does in JavaScript.
\<close>

datatype number = Finite rat | PosInfinity | NegInfinity | NotANumber

definition js_divide :: "int \<Rightarrow> int \<Rightarrow> number" where
  "js_divide x y =
     (if y \<noteq> 0 then Finite (of_int x / of_int y)
      else if 0 < x then PosInfinity
      else if x < 0 then NegInfinity
      else NotANumber)"

fun digits_of :: "nat \<Rightarrow> string" where
  "digits_of n =
     (if n < 10 then [char_of (48 + n)]
      else digits_of (n div 10) @ [char_of (48 + n mod 10)])"

declare digits_of.simps [simp del]

section \<open>Plain objects used as tallies\<close>

text \<open>
  \<open>_commands\<close> and \<open>_commandErrors\<close> are object literals \<open>{}\<close> indexed by a command
  name. A tally is modelled by its own enumerable properties in creation order. A read
  \<open>t[k]\<close> that finds no own property continues in \<open>Object.prototype\<close>, whose property
  names are listed below; all of them hold functions, except the accessor
  \<open>__proto__\<close>, which yields \<open>Object.prototype\<close> itself.
\<close>

type_synonym tally = "(string \<times> count) list"

definition Object_prototype :: "string list" where
  "Object_prototype =
     [''constructor'', ''__defineGetter__'', ''__defineSetter__'', ''hasOwnProperty'',
      ''__lookupGetter__'', ''__lookupSetter__'', ''isPrototypeOf'',
      ''propertyIsEnumerable'', ''toString'', ''valueOf'', ''__proto__'',
      ''toLocaleString'']"

datatype property = Own count | Inherited | Missing

definition get_property :: "tally \<Rightarrow> string \<Rightarrow> property" where
  "get_property t k =
     (case map_of t k of
        Some v \<Rightarrow> Own v
      | None \<Rightarrow> if k \<in> set Object_prototype then Inherited else Missing)"

text \<open>
  An assignment \<open>t[k] = v\<close> of a number: the inherited setter of \<open>__proto__\<close> ignores
  a value that is not an object; every other name becomes (or stays) an own property,
  a new one at the end.
\<close>

definition set_property :: "tally \<Rightarrow> string \<Rightarrow> count \<Rightarrow> tally" where
  "set_property t k v = (if k = ''__proto__'' then t else AList.update k v t)"

text \<open>\<open>t[k] ??= v\<close>: assigns only when the value read is \<open>undefined\<close> or \<open>null\<close>.\<close>

definition nullish_assign :: "tally \<Rightarrow> string \<Rightarrow> count \<Rightarrow> tally" where
  "nullish_assign t k v =
     (case get_property t k of Missing \<Rightarrow> set_property t k v | _ \<Rightarrow> t)"

text \<open>
  \<open>t[k]++\<close>: the value read is converted to a number (a function or an object
  converts to \<open>NaN\<close>, and so does \<open>undefined\<close>), one is added, and the sum is assigned.
\<close>

definition to_numeric :: "property \<Rightarrow> count" where
  "to_numeric p = (case p of Own c \<Rightarrow> c | Inherited \<Rightarrow> NaN | Missing \<Rightarrow> NaN)"

definition postfix_increment :: "tally \<Rightarrow> string \<Rightarrow> tally" where
  "postfix_increment t k = set_property t k (count_succ (to_numeric (get_property t k)))"

text \<open>The two statements every tally update consists of: \<open>t[k] ??= 0; t[k]++\<close>.\<close>

definition increment :: "tally \<Rightarrow> string \<Rightarrow> tally" where
  "increment t k = postfix_increment (nullish_assign t k (Count 0)) k"

text \<open>
  \<open>Object.entries\<close> lists the own properties: first the names that are array indices
  (canonical decimal numerals below \<open>2^32 - 1\<close>) in ascending numeric order, then all
  other names in creation order.
\<close>

definition decimal :: "string \<Rightarrow> nat" where
  "decimal k = foldl (\<lambda>n c. 10 * n + (of_char c - 48)) 0 k"

definition is_array_index :: "string \<Rightarrow> bool" where
  "is_array_index k \<longleftrightarrow>
     k \<noteq> [] \<and> list_all (\<lambda>c. c \<in> set ''0123456789'') k \<and>
     (k = ''0'' \<or> hd k \<noteq> CHR ''0'') \<and> decimal k < 4294967295"

definition Object_entries :: "tally \<Rightarrow> (string \<times> count) list" where
  "Object_entries t =
     sort_key (\<lambda>e. decimal (fst e)) (filter (\<lambda>e. is_array_index (fst e)) t) @
     filter (\<lambda>e. \<not> is_array_index (fst e)) t"

section \<open>Options, collaborators and points\<close>

text \<open>\<open>MetricsOptions\<close> as the caller passes it: an optional field is an \<open>option\<close>.\<close>

record InfluxDBInput =
  in_application :: string
  in_bucket :: string
  in_extraTags :: "(string \<times> string) list option"
  in_org :: string
  in_influx_reportInterval :: "int option"
  in_influx_token :: string
  in_url :: string

record TopggInput =
  in_topgg_reportInterval :: "int option"
  in_postShards :: "bool option"
  in_topgg_token :: "string option"

record MetricsOptions =
  in_influxDB :: "InfluxDBInput option"
  in_topgg :: "TopggInput option"

text \<open>\<open>Metrics.options\<close>: the same with the defaults filled in.\<close>

record InfluxDBOptions =
  application :: string
  bucket :: string
  extraTags :: "(string \<times> string) list"
  org :: string
  influx_reportInterval :: int
  influx_token :: string
  url :: string

record TopggOptions =
  topgg_reportInterval :: int
  postShards :: bool
  topgg_token :: "string option"

record InfluxClient =
  client_token :: string
  client_url :: string

text \<open>
  What the controller reads from the process (\<open>process.cpuUsage()\<close>, \<open>Date.now()\<close>,
  \<open>process.memoryUsage.rss()\<close>, \<open>process.env.TOPGG_TOKEN\<close>) at the moment of a call.
\<close>

record CpuUsage =
  user :: int
  system :: int

record CPUMetrics =
  usage :: CpuUsage
  time :: int

record process =
  cpuUsage :: CpuUsage
  Date_now :: int
  memoryUsage_rss :: nat
  env_TOPGG_TOKEN :: "string option"

text \<open>
  What the controller reads from \<open>this.client\<close> (the \<open>ClientManager\<close>) at the moment of a
  call. A shard's \<open>state_name\<close> is \<open>GatewayShardState[shard.state]\<close>; the enumeration
  is declared by the gateway library, so the name it yields is taken as given. A shard's
  \<open>ping\<close> is whatever the gateway library holds there: a whole number of milliseconds, or
  something that is not a number. \<open>gateway.user?.id\<close> is read by the earlier revision
  only.
\<close>

record Shard =
  shard_id :: nat
  guilds_size :: nat
  ping :: count
  state_name :: string

record Client =
  rest_responseCodeTally :: "(string \<times> nat) list"
  gateway_shards :: "Shard list"
  gateway_guildCount :: nat
  gateway_averagePing :: number
  gateway_user_id :: "string option"
  commandHandler_commands :: "string list"

text \<open>
  \<open>InteractionType\<close> as the Discord API types (version 10) declare it, and the fields of
  the event payload \<open>d\<close> the listener reads. The listener compares the type with
  \<open>ApplicationCommand\<close> only.
\<close>

datatype InteractionType =
  Ping | ApplicationCommand | MessageComponent | ApplicationCommandAutocomplete | ModalSubmit

record Interaction =
  interaction_type :: InteractionType
  data_id :: string
  data_name :: string

text \<open>
  What a call can throw: an \<open>Error\<close> of the controller's own with its message, or an error
  of the InfluxDB client library, named by its kind with the field and value (or the url)
  it refuses.
\<close>

datatype js_error =
    Error string
  | InvalidFloat string number
  | InvalidInteger string count
  | UnsupportedProtocol string

text \<open>
  A throwing call followed by what is done with its value: the first error ends the
  computation.
\<close>

definition and_then :: "js_error + 'a \<Rightarrow> ('a \<Rightarrow> js_error + 'b) \<Rightarrow> js_error + 'b" where
  "and_then r f = (case r of Inl e \<Rightarrow> Inl e | Inr a \<Rightarrow> f a)"

text \<open>
  A \<open>Point\<close> of the InfluxDB client library: its measurement, its tags and its fields, in
  the order the builder methods were called. The library is not part of the repository;
  its builders are modelled from its published behaviour: \<open>floatField\<close> throws unless the
  value is finite, \<open>intField\<close> throws on \<open>NaN\<close> and on a value of \<open>9223372036854776e3\<close> or
  more, \<open>tag\<close> and \<open>stringField\<close> accept every string.
\<close>

datatype field_value = FloatField number | IntField count | StringField string

record Point =
  measurement :: string
  point_tags :: "(string \<times> string) list"
  point_fields :: "(string \<times> field_value) list"

definition new_Point :: "string \<Rightarrow> Point" where
  "new_Point m = \<lparr>measurement = m, point_tags = [], point_fields = []\<rparr>"

definition tag :: "string \<Rightarrow> string \<Rightarrow> Point \<Rightarrow> Point" where
  "tag k v p = p\<lparr>point_tags := point_tags p @ [(k, v)]\<rparr>"

definition add_field :: "string \<Rightarrow> field_value \<Rightarrow> Point \<Rightarrow> Point" where
  "add_field k v p = p\<lparr>point_fields := point_fields p @ [(k, v)]\<rparr>"

definition float_ok :: "number \<Rightarrow> bool" where
  "float_ok v = (case v of Finite q \<Rightarrow> True | PosInfinity \<Rightarrow> False | NegInfinity \<Rightarrow> False
                 | NotANumber \<Rightarrow> False)"

definition int_ok :: "count \<Rightarrow> bool" where
  "int_ok v = (case v of Count n \<Rightarrow> n < 9223372036854776000 | NaN \<Rightarrow> False)"

definition floatField :: "string \<Rightarrow> number \<Rightarrow> Point \<Rightarrow> js_error + Point" where
  "floatField k v p =
     (if float_ok v then Inr (add_field k (FloatField v) p) else Inl (InvalidFloat k v))"

definition intField :: "string \<Rightarrow> count \<Rightarrow> Point \<Rightarrow> js_error + Point" where
  "intField k v p =
     (if int_ok v then Inr (add_field k (IntField v) p) else Inl (InvalidInteger k v))"

definition stringField :: "string \<Rightarrow> string \<Rightarrow> Point \<Rightarrow> Point" where
  "stringField k v p = add_field k (StringField v) p"

text \<open>
  A loop that builds one point per element and pushes it: the first builder that throws
  ends the loop.
\<close>

fun build_all :: "('a \<Rightarrow> js_error + Point) \<Rightarrow> 'a list \<Rightarrow> js_error + Point list" where
  "build_all f [] = Inr []"
| "build_all f (x # xs) =
     and_then (f x) (\<lambda>pt. and_then (build_all f xs) (\<lambda>pts. Inr (pt # pts)))"

record WriteApi =
  api_org :: string
  api_bucket :: string
  defaultTags :: "(string \<times> string) list"

datatype log_entry = Initialized | Wrote nat | Posted

section \<open>The controller\<close>

text \<open>
  The fields of a \<open>Metrics\<close> object. \<open>_influxDBCallback\<close> holds a function (or \<open>null\<close>).
  A call of it throws, or it returns points or a promise of points; what the cycle then
  gets by awaiting the value returned is an input of the cycle.
\<close>

datatype callback = Returns nat | Throws js_error

definition thrown_by :: "callback option \<Rightarrow> js_error option" where
  "thrown_by cb =
     (case cb of
        None \<Rightarrow> None
      | Some f \<Rightarrow> (case f of Returns n \<Rightarrow> None | Throws e \<Rightarrow> Some e))"

text \<open>\<open>this._influxDBCallback?.()\<close>, the operand of the first \<open>await\<close>.\<close>

definition call_callback :: "callback option \<Rightarrow> js_error + callback option" where
  "call_callback cb = (case thrown_by cb of Some e \<Rightarrow> Inl e | None \<Rightarrow> Inr cb)"

record Metrics =
  options_influxDB :: "InfluxDBOptions option"
  options_topgg :: "TopggOptions option"
  influxClient :: "InfluxClient option"
  commands :: tally
  commandErrors :: tally
  influxDBCallback :: "callback option"
  lastCPUMetrics :: CPUMetrics

datatype sink = InfluxDB | Topgg

subsection \<open>The constructor\<close>

text \<open>
  The field initialisers run first: both tallies are \<open>{}\<close>, the callback is \<open>null\<close> and
  the retained CPU sample is taken.
\<close>

definition field_initializers :: "process \<Rightarrow> Metrics" where
  "field_initializers p =
     \<lparr>options_influxDB = None, options_topgg = None, influxClient = None,
      commands = [], commandErrors = [], influxDBCallback = None,
      lastCPUMetrics = \<lparr>usage = cpuUsage p, time = Date_now p\<rparr>\<rparr>"

definition resolve_influxDB :: "InfluxDBInput \<Rightarrow> InfluxDBOptions" where
  "resolve_influxDB i =
     \<lparr>application = in_application i,
      bucket = in_bucket i,
      extraTags = (case in_extraTags i of None \<Rightarrow> [] | Some ts \<Rightarrow> ts),
      org = in_org i,
      influx_reportInterval = (case in_influx_reportInterval i of None \<Rightarrow> 0 | Some n \<Rightarrow> n),
      influx_token = in_influx_token i,
      url = in_url i\<rparr>"

definition resolve_topgg :: "process \<Rightarrow> TopggInput \<Rightarrow> TopggOptions" where
  "resolve_topgg p t =
     \<lparr>topgg_reportInterval = (case in_topgg_reportInterval t of None \<Rightarrow> 0 | Some n \<Rightarrow> n),
      postShards = (case in_postShards t of None \<Rightarrow> False | Some b \<Rightarrow> b),
      topgg_token = (case in_topgg_token t of None \<Rightarrow> env_TOPGG_TOKEN p | Some s \<Rightarrow> Some s)\<rparr>"

text \<open>\<open>!token\<close> and \<open>!token?.length\<close>: true of \<open>undefined\<close> and of the empty string.\<close>

definition no_token :: "string option \<Rightarrow> bool" where
  "no_token t = (case t of None \<Rightarrow> True | Some s \<Rightarrow> s = [])"

text \<open>
  \<open>new InfluxDB({token, url})\<close> sets up the client library's transport, which throws
  unless the url has a protocol it supports. Which urls those are is decided by the
  library's parsing of the url and is a parameter here.
\<close>

definition new_InfluxDB :: "(string \<Rightarrow> bool) \<Rightarrow> InfluxClient \<Rightarrow> js_error + InfluxClient" where
  "new_InfluxDB supports ic =
     (if supports (client_url ic) then Inr ic else Inl (UnsupportedProtocol (client_url ic)))"

text \<open>
  A constructor call leaves effects behind even when it throws: the object as far as it was
  built (the timer callbacks hold it), the timers armed by \<open>setInterval\<close> (each unreferenced,
  none ever cleared), the gateway events listened to, and the log lines.
\<close>

record construction =
  object :: Metrics
  thrown :: "js_error option"
  armed :: "(sink \<times> int) list"
  listening :: "string list"
  construction_log :: "log_entry list"

definition constructor :: "(string \<Rightarrow> bool) \<Rightarrow> process \<Rightarrow> MetricsOptions \<Rightarrow> construction" where
  "constructor supports p opts =
     (let m0 = (field_initializers p)
            \<lparr>options_influxDB := map_option resolve_influxDB (in_influxDB opts),
             options_topgg := map_option (resolve_topgg p) (in_topgg opts)\<rparr>;
          influxDB_setup =
            (case options_influxDB m0 of
               None \<Rightarrow> Inr (m0, [])
             | Some i \<Rightarrow>
                 (case new_InfluxDB supports
                         \<lparr>client_token = influx_token i, client_url = url i\<rparr> of
                    Inl e \<Rightarrow> Inl e
                  | Inr ic \<Rightarrow>
                      Inr (m0\<lparr>influxClient := Some ic\<rparr>,
                           if influx_reportInterval i \<noteq> 0
                           then [(InfluxDB, influx_reportInterval i)] else [])))
      in case influxDB_setup of
           Inl e \<Rightarrow>
             \<lparr>object = m0, thrown = Some e, armed = [], listening = [],
              construction_log = []\<rparr>
         | Inr s1 \<Rightarrow>
             (case options_topgg (fst s1) of
                None \<Rightarrow>
                  \<lparr>object = fst s1, thrown = None, armed = snd s1,
                   listening = [''INTERACTION_CREATE''], construction_log = [Initialized]\<rparr>
              | Some t \<Rightarrow>
                  if no_token (topgg_token t)
                  then \<lparr>object = fst s1, thrown = Some (Error ''Top.gg API token is undefined''),
                        armed = snd s1, listening = [], construction_log = []\<rparr>
                  else \<lparr>object = fst s1, thrown = None,
                        armed = snd s1 @
                          (if topgg_reportInterval t \<noteq> 0
                           then [(Topgg, topgg_reportInterval t)] else []),
                        listening = [''INTERACTION_CREATE''], construction_log = [Initialized]\<rparr>))"

subsection \<open>Command attribution\<close>

text \<open>The listener the constructor attaches to the gateway's \<open>INTERACTION_CREATE\<close>.\<close>

definition on_INTERACTION_CREATE :: "Client \<Rightarrow> Interaction \<Rightarrow> Metrics \<Rightarrow> Metrics" where
  "on_INTERACTION_CREATE c d m =
     (if interaction_type d = ApplicationCommand \<and> data_id d \<in> set (commandHandler_commands c)
      then m\<lparr>commands := increment (commands m) (data_name d)\<rparr>
      else m)"

definition incrementCommandError :: "string \<Rightarrow> Metrics \<Rightarrow> Metrics" where
  "incrementCommandError command m = m\<lparr>commandErrors := increment (commandErrors m) command\<rparr>"

text \<open>
  The error callback \<open>ClientManager.setErrorCallbacks\<close> installs: a command context
  reports its command's name, or \<open>Unknown\<close> when it has no command.
\<close>

datatype context_kind = ChatCommandContext | ContextMenuCommandContext | OtherContext

definition on_error :: "context_kind \<Rightarrow> string option \<Rightarrow> Metrics \<Rightarrow> Metrics" where
  "on_error ctx command_name m =
     (if ctx = ChatCommandContext \<or> ctx = ContextMenuCommandContext
      then incrementCommandError (case command_name of None \<Rightarrow> ''Unknown'' | Some n \<Rightarrow> n) m
      else m)"

definition setInfluxDBCallback :: "callback \<Rightarrow> Metrics \<Rightarrow> Metrics" where
  "setInfluxDBCallback cb m = m\<lparr>influxDBCallback := Some cb\<rparr>"

subsection \<open>The InfluxDB report cycle\<close>

text \<open>The local \<open>stats\<close> of \<open>reportInfluxDBMetrics\<close>.\<close>

record Stats =
  stats_commands :: tally
  stats_commandErrors :: tally
  stats_cpu :: number
  stats_memory :: nat
  stats_rest :: "(string \<times> nat) list"
  stats_shardCount :: nat
  stats_shardGuilds :: nat
  stats_shardPing :: number
  stats_shards :: "Shard list"

definition collect_stats :: "Client \<Rightarrow> process \<Rightarrow> Metrics \<Rightarrow> Stats" where
  "collect_stats c p m =
     \<lparr>stats_commands = commands m,
      stats_commandErrors = commandErrors m,
      stats_cpu =
        js_divide
          (100 * ((system (cpuUsage p) - system (usage (lastCPUMetrics m))) +
                  (user (cpuUsage p) - user (usage (lastCPUMetrics m)))))
          ((Date_now p - time (lastCPUMetrics m)) * 1000),
      stats_memory = memoryUsage_rss p,
      stats_rest = rest_responseCodeTally c,
      stats_shardCount = length (gateway_shards c),
      stats_shardGuilds = gateway_guildCount c,
      stats_shardPing = gateway_averagePing c,
      stats_shards = gateway_shards c\<rparr>"

definition processPoint :: "Stats \<Rightarrow> js_error + Point" where
  "processPoint st =
     and_then (floatField ''cpu'' (stats_cpu st) (new_Point ''process''))
       (\<lambda>p1. and_then (intField ''memory'' (Count (stats_memory st)) p1)
         (\<lambda>p2. and_then (intField ''shards'' (Count (stats_shardCount st)) p2)
           (\<lambda>p3. and_then (intField ''guilds'' (Count (stats_shardGuilds st)) p3)
             (\<lambda>p4. floatField ''ping'' (stats_shardPing st) p4))))"

definition commandPoints :: "Stats \<Rightarrow> js_error + Point list" where
  "commandPoints st =
     build_all (\<lambda>e. intField ''count'' (snd e) (tag ''name'' (fst e) (new_Point ''command'')))
       (Object_entries (stats_commands st))"

text \<open>The second loop also enumerates \<open>stats.commands\<close>.\<close>

definition commandErrorPoints :: "Stats \<Rightarrow> js_error + Point list" where
  "commandErrorPoints st =
     build_all (\<lambda>e. intField ''count'' (snd e) (tag ''name'' (fst e) (new_Point ''commandError'')))
       (Object_entries (stats_commands st))"

definition restPoints :: "Stats \<Rightarrow> js_error + Point list" where
  "restPoints st =
     build_all (\<lambda>e. intField ''count'' (Count (snd e)) (tag ''code'' (fst e) (new_Point ''rest'')))
       (stats_rest st)"

definition shardPoints :: "Stats \<Rightarrow> js_error + Point list" where
  "shardPoints st =
     build_all
       (\<lambda>sh. and_then
                (intField ''guilds'' (Count (guilds_size sh))
                   (tag ''id'' (digits_of (shard_id sh)) (new_Point ''shard'')))
                (\<lambda>p1. and_then (intField ''ping'' (ping sh) p1)
                  (\<lambda>p2. Inr (stringField ''state'' (state_name sh) p2))))
       (stats_shards st)"

text \<open>\<open>{application: a, ...extraTags}\<close>: a later entry replaces an earlier one.\<close>

definition spread :: "(string \<times> string) list \<Rightarrow> (string \<times> string) list \<Rightarrow> (string \<times> string) list" where
  "spread base extra = foldl (\<lambda>acc e. AList.update (fst e) (snd e) acc) base extra"

text \<open>
  An \<open>async\<close> function runs up to its first \<open>await\<close> within the call; the rest runs
  when what it awaits has settled. \<open>reportInfluxDBMetrics_begin\<close> is the part before the
  first \<open>await\<close>: the configuration guard, the sample, \<open>stats\<close>, the update of
  \<open>_lastCPUMetrics\<close>, the write API, the points and the call of the callback. It
  gives the controller as it leaves it, and either what it has thrown (at the guard,
  before anything is touched, or in a builder or in the callback, after the update) or the
  cycle it leaves in flight.
\<close>

record influx_cycle =
  cycle_api :: WriteApi
  cycle_points :: "Point list"
  cycle_callback :: "callback option"

definition reportInfluxDBMetrics_begin ::
  "Client \<Rightarrow> process \<Rightarrow> Metrics \<Rightarrow> (js_error + influx_cycle) \<times> Metrics" where
  "reportInfluxDBMetrics_begin c p m =
     (case options_influxDB m of
        None \<Rightarrow> (Inl (Error ''Cannot post to InfluxDB; options not defined''), m)
      | Some i \<Rightarrow>
          (case influxClient m of
             None \<Rightarrow> (Inl (Error ''Cannot post to InfluxDB; options not defined''), m)
           | Some ic \<Rightarrow>
               (let stats = collect_stats c p m;
                    m' = m\<lparr>lastCPUMetrics := \<lparr>usage = cpuUsage p, time = Date_now p\<rparr>\<rparr>;
                    writeAPI = \<lparr>api_org = org i, api_bucket = bucket i,
                                defaultTags = spread [(''application'', application i)] (extraTags i)\<rparr>
                in (and_then (processPoint stats)
                      (\<lambda>pp. and_then (commandPoints stats)
                        (\<lambda>cps. and_then (commandErrorPoints stats)
                          (\<lambda>ceps. and_then (restPoints stats)
                            (\<lambda>rps. and_then (shardPoints stats)
                              (\<lambda>sps. and_then (call_callback (influxDBCallback m'))
                                (\<lambda>cb. Inr \<lparr>cycle_api = writeAPI,
                                            cycle_points = pp # cps @ ceps @ rps @ sps,
                                            cycle_callback = cb\<rparr>)))))),
                    m'))))"

text \<open>
  How the awaited calls of one cycle settle: the callback's points, the write API's
  \<open>close\<close>, and the REST request of the Top.gg cycle. Each fulfils or rejects with an
  \<open>Error\<close>. The rest of a cycle reads and writes no field of the controller, so the two
  awaits of an InfluxDB cycle are taken in one step.
\<close>

record io =
  callback_settles :: "js_error + Point list"
  close_settles :: "js_error + unit"
  make_settles :: "js_error + unit"

text \<open>What a cycle hands to its collaborators.\<close>

record topgg_request =
  route :: string
  server_count :: nat
  shard_count :: "nat option"
  authHeader :: "string option"

record effects =
  written :: "(WriteApi \<times> Point list) list"
  requested :: "topgg_request list"
  logged :: "log_entry list"

definition no_effects :: effects where
  "no_effects = \<lparr>written = [], requested = [], logged = []\<rparr>"

definition reportInfluxDBMetrics_finish :: "io \<Rightarrow> influx_cycle \<Rightarrow> (js_error + unit) \<times> effects" where
  "reportInfluxDBMetrics_finish x cy =
     (case (case cycle_callback cy of None \<Rightarrow> Inr [] | Some cb \<Rightarrow> callback_settles x) of
        Inl e \<Rightarrow> (Inl e, no_effects)
      | Inr extraPoints \<Rightarrow>
          (let points = cycle_points cy @ extraPoints in
           case close_settles x of
             Inl e \<Rightarrow> (Inl e, no_effects\<lparr>written := [(cycle_api cy, points)]\<rparr>)
           | Inr u \<Rightarrow>
               (Inr (), \<lparr>written = [(cycle_api cy, points)], requested = [],
                          logged = [Wrote (length points)]\<rparr>)))"

text \<open>A whole call, from the call to the settling of the promise it returns.\<close>

record outcome =
  settled :: "js_error + unit"
  metrics_after :: Metrics
  caused :: effects

definition reportInfluxDBMetrics :: "Client \<Rightarrow> process \<Rightarrow> io \<Rightarrow> Metrics \<Rightarrow> outcome" where
  "reportInfluxDBMetrics c p x m =
     (case fst (reportInfluxDBMetrics_begin c p m) of
        Inl e \<Rightarrow>
          \<lparr>settled = Inl e, metrics_after = snd (reportInfluxDBMetrics_begin c p m),
           caused = no_effects\<rparr>
      | Inr cy \<Rightarrow>
          \<lparr>settled = fst (reportInfluxDBMetrics_finish x cy),
           metrics_after = snd (reportInfluxDBMetrics_begin c p m),
           caused = snd (reportInfluxDBMetrics_finish x cy)\<rparr>)"

subsection \<open>The Top.gg report cycle\<close>

text \<open>\<open>ClientManager.topggRequest\<close>, up to the request it hands to \<open>rest.make\<close>.\<close>

definition topggRequest ::
  "process \<Rightarrow> string \<Rightarrow> nat \<Rightarrow> nat option \<Rightarrow> string option \<Rightarrow> js_error + topgg_request" where
  "topggRequest p r sc shc token =
     (if no_token token \<and> no_token (env_TOPGG_TOKEN p)
      then Inl (Error ''Top.gg API token is undefined'')
      else Inr \<lparr>route = r, server_count = sc, shard_count = shc,
                authHeader = (case token of None \<Rightarrow> env_TOPGG_TOKEN p | Some t \<Rightarrow> Some t)\<rparr>)"

definition reportTopggMetrics_begin :: "Client \<Rightarrow> process \<Rightarrow> Metrics \<Rightarrow> js_error + topgg_request" where
  "reportTopggMetrics_begin c p m =
     (case options_topgg m of
        None \<Rightarrow> Inl (Error ''Cannot post to Top.gg; options not defined'')
      | Some t \<Rightarrow>
          topggRequest p ''/bots/stats'' (gateway_guildCount c)
            (if postShards t then Some (length (gateway_shards c)) else None)
            (topgg_token t))"

definition reportTopggMetrics_finish :: "io \<Rightarrow> topgg_request \<Rightarrow> (js_error + unit) \<times> effects" where
  "reportTopggMetrics_finish x rq =
     (case make_settles x of
        Inl e \<Rightarrow> (Inl e, no_effects\<lparr>requested := [rq]\<rparr>)
      | Inr u \<Rightarrow> (Inr (), \<lparr>written = [], requested = [rq], logged = [Posted]\<rparr>))"

definition reportTopggMetrics :: "Client \<Rightarrow> process \<Rightarrow> io \<Rightarrow> Metrics \<Rightarrow> outcome" where
  "reportTopggMetrics c p x m =
     (case reportTopggMetrics_begin c p m of
        Inl e \<Rightarrow> \<lparr>settled = Inl e, metrics_after = m, caused = no_effects\<rparr>
      | Inr rq \<Rightarrow>
          \<lparr>settled = fst (reportTopggMetrics_finish x rq),
           metrics_after = m,
           caused = snd (reportTopggMetrics_finish x rq)\<rparr>)"

section \<open>The event loop\<close>

text \<open>
  Everything runs on one event loop: a timer callback, a gateway event, a call from the
  host program and the continuation of an awaited call each run to their end (or to their
  next \<open>await\<close>) before the next one starts. The state of the loop, as far as the controller
  is concerned: the controller, the armed timers, the events listened to, the timer
  callbacks that have run, the report cycles started and not yet settled, what
  \<open>console.error\<close> has printed, the rejections handed back to a caller, and what the
  collaborators have been given.
\<close>

datatype origin = Scheduled | Manual

datatype cycle = InfluxCycle influx_cycle | TopggCycle topgg_request

fun sink_of :: "cycle \<Rightarrow> sink" where
  "sink_of (InfluxCycle cy) = InfluxDB"
| "sink_of (TopggCycle rq) = Topgg"

record runtime =
  controller :: Metrics
  timers :: "(sink \<times> int) list"
  listeners :: "string list"
  ticks :: "sink list"
  in_flight :: "(origin \<times> cycle) list"
  console_error :: "js_error list"
  rejections :: "js_error list"
  handed :: effects

definition launch :: "construction \<Rightarrow> runtime" where
  "launch cn =
     \<lparr>controller = object cn, timers = armed cn, listeners = listening cn, ticks = [],
      in_flight = [], console_error = [], rejections = [],
      handed = no_effects\<lparr>logged := construction_log cn\<rparr>\<rparr>"

definition add_effects :: "effects \<Rightarrow> effects \<Rightarrow> effects" where
  "add_effects a b =
     \<lparr>written = written a @ written b, requested = requested a @ requested b,
      logged = logged a @ logged b\<rparr>"

text \<open>
  A rejected promise: a timer callback has attached \<open>.catch\<close>, whose handler prints the
  error's stack with \<open>console.error\<close>; a manual call hands the rejection to its caller.
\<close>

definition reject :: "origin \<Rightarrow> js_error \<Rightarrow> runtime \<Rightarrow> runtime" where
  "reject og e rt =
     (case og of
        Scheduled \<Rightarrow> rt\<lparr>console_error := console_error rt @ [e]\<rparr>
      | Manual \<Rightarrow> rt\<lparr>rejections := rejections rt @ [e]\<rparr>)"

text \<open>A call of \<open>reportInfluxDBMetrics()\<close> or \<open>reportTopggMetrics()\<close>, up to its first \<open>await\<close>.\<close>

definition begin_cycle :: "origin \<Rightarrow> sink \<Rightarrow> Client \<Rightarrow> process \<Rightarrow> runtime \<Rightarrow> runtime" where
  "begin_cycle og s c p rt =
     (case s of
        InfluxDB \<Rightarrow>
          (case fst (reportInfluxDBMetrics_begin c p (controller rt)) of
             Inl e \<Rightarrow>
               reject og e (rt\<lparr>controller := snd (reportInfluxDBMetrics_begin c p (controller rt))\<rparr>)
           | Inr cy \<Rightarrow>
               rt\<lparr>controller := snd (reportInfluxDBMetrics_begin c p (controller rt)),
                  in_flight := in_flight rt @ [(og, InfluxCycle cy)]\<rparr>)
      | Topgg \<Rightarrow>
          (case reportTopggMetrics_begin c p (controller rt) of
             Inl e \<Rightarrow> reject og e rt
           | Inr rq \<Rightarrow> rt\<lparr>in_flight := in_flight rt @ [(og, TopggCycle rq)]\<rparr>))"

definition finish_cycle :: "io \<Rightarrow> cycle \<Rightarrow> (js_error + unit) \<times> effects" where
  "finish_cycle x cy =
     (case cy of
        InfluxCycle ic \<Rightarrow> reportInfluxDBMetrics_finish x ic
      | TopggCycle rq \<Rightarrow> reportTopggMetrics_finish x rq)"

text \<open>The rest of the cycle at position \<open>i\<close> of those in flight, once its awaited calls settle.\<close>

definition settle :: "nat \<Rightarrow> io \<Rightarrow> runtime \<Rightarrow> runtime" where
  "settle i x rt =
     (if i < length (in_flight rt)
      then
        (let og = fst (in_flight rt ! i);
             r = finish_cycle x (snd (in_flight rt ! i));
             rt' = rt\<lparr>in_flight := take i (in_flight rt) @ drop (Suc i) (in_flight rt),
                      handed := add_effects (handed rt) (snd r)\<rparr>
         in case fst r of Inl e \<Rightarrow> reject og e rt' | Inr u \<Rightarrow> rt')
      else rt)"

text \<open>
  The events. A timer callback runs only for a timer that is armed, and a gateway event
  reaches the controller only through a listener it has attached.
\<close>

datatype event =
    Tick sink Client process
  | Invoke sink Client process
  | Settle nat io
  | Gateway Client Interaction
  | CommandError context_kind "string option"
  | SetCallback callback

fun step :: "event \<Rightarrow> runtime \<Rightarrow> runtime" where
  "step (Tick s c p) rt =
     (if s \<in> fst ` set (timers rt)
      then begin_cycle Scheduled s c p (rt\<lparr>ticks := ticks rt @ [s]\<rparr>)
      else rt)"
| "step (Invoke s c p) rt = begin_cycle Manual s c p rt"
| "step (Settle i x) rt = settle i x rt"
| "step (Gateway c d) rt =
     (if ''INTERACTION_CREATE'' \<in> set (listeners rt)
      then rt\<lparr>controller := on_INTERACTION_CREATE c d (controller rt)\<rparr>
      else rt)"
| "step (CommandError ctx n) rt = rt\<lparr>controller := on_error ctx n (controller rt)\<rparr>"
| "step (SetCallback cb) rt = rt\<lparr>controller := setInfluxDBCallback cb (controller rt)\<rparr>"

fun run :: "event list \<Rightarrow> runtime \<Rightarrow> runtime" where
  "run [] rt = rt"
| "run (ev # evs) rt = run evs (step ev rt)"

text \<open>The cycles of a sink that a timer has started and that have not settled.\<close>

definition scheduled_in_flight :: "sink \<Rightarrow> runtime \<Rightarrow> nat" where
  "scheduled_in_flight s rt =
     length (filter (\<lambda>f. fst f = Scheduled \<and> sink_of (snd f) = s) (in_flight rt))"

text \<open>
  Reading a batch of points back: the \<open>(name, count)\<close> pairs of the points of one
  measurement, and all the points a call has handed to \<open>writePoints\<close>.
\<close>

definition tally_of :: "string \<Rightarrow> Point list \<Rightarrow> (string option \<times> field_value option) list" where
  "tally_of m pts =
     map (\<lambda>pt. (map_of (point_tags pt) ''name'', map_of (point_fields pt) ''count''))
       (filter (\<lambda>pt. measurement pt = m) pts)"

definition points_written :: "outcome \<Rightarrow> Point list" where
  "points_written out = concat (map snd (written (caused out)))"

text \<open>
  The order in which a tally slot can move: a number may grow, and \<open>NaN\<close> stays \<open>NaN\<close>.
\<close>

definition count_le :: "count \<Rightarrow> count \<Rightarrow> bool" where
  "count_le a b =
     (case a of
        Count m \<Rightarrow> (case b of Count n \<Rightarrow> m \<le> n | NaN \<Rightarrow> False)
      | NaN \<Rightarrow> b = NaN)"

text \<open>
  What a call of the sink's report function throws before its first \<open>await\<close>, if it throws
  anything there; and the values of \<open>stats\<close> all of whose builder calls the client library
  accepts.
\<close>

definition throws_at_once :: "sink \<Rightarrow> Client \<Rightarrow> process \<Rightarrow> Metrics \<Rightarrow> js_error option" where
  "throws_at_once s c p m =
     (case s of
        InfluxDB \<Rightarrow>
          (case fst (reportInfluxDBMetrics_begin c p m) of Inl e \<Rightarrow> Some e | Inr cy \<Rightarrow> None)
      | Topgg \<Rightarrow>
          (case reportTopggMetrics_begin c p m of Inl e \<Rightarrow> Some e | Inr rq \<Rightarrow> None))"

definition values_accepted :: "Stats \<Rightarrow> bool" where
  "values_accepted st \<longleftrightarrow>
     float_ok (stats_cpu st) \<and> int_ok (Count (stats_memory st)) \<and>
     int_ok (Count (stats_shardCount st)) \<and> int_ok (Count (stats_shardGuilds st)) \<and>
     float_ok (stats_shardPing st) \<and>
     list_all (\<lambda>e. int_ok (snd e)) (stats_commands st) \<and>
     list_all (\<lambda>e. int_ok (Count (snd e))) (stats_rest st) \<and>
     list_all (\<lambda>sh. int_ok (Count (guilds_size sh)) \<and> int_ok (ping sh)) (stats_shards st)"

section \<open>The earlier revision\<close>

text \<open>
  The build under \<open>dist/structures/Metrics.js\<close> is of an earlier revision of the class: it
  keeps no tallies and attaches no listener, and its InfluxDB cycle awaits the gateway's
  pings before it builds its points (so a builder that throws rejects the cycle while it
  is in flight), and its Top.gg cycle throws at once when the gateway has no user id yet.
  Its constructor (the listener apart), its InfluxDB configuration guard, its CPU
  expression and its timer callbacks are the same. Its \<open>reportInfluxDBMetrics\<close> is
  modelled up to its first \<open>await\<close>: the guard, the sample, the local \<open>cpu\<close> and the
  update of \<open>_lastCPUMetrics\<close>; its \<open>reportTopggMetrics\<close> up to the request it hands to
  \<open>rest.make\<close>.
\<close>

definition reportInfluxDBMetrics_begin_dist ::
  "process \<Rightarrow> Metrics \<Rightarrow> js_error + number \<times> Metrics" where
  "reportInfluxDBMetrics_begin_dist p m =
     (case options_influxDB m of
        None \<Rightarrow> Inl (Error ''Cannot post to InfluxDB; options not defined'')
      | Some i \<Rightarrow>
          (case influxClient m of
             None \<Rightarrow> Inl (Error ''Cannot post to InfluxDB; options not defined'')
           | Some ic \<Rightarrow>
               (let cpu =
                      js_divide
                        (100 * ((system (cpuUsage p) - system (usage (lastCPUMetrics m))) +
                                (user (cpuUsage p) - user (usage (lastCPUMetrics m)))))
                        ((Date_now p - time (lastCPUMetrics m)) * 1000)
                in Inr (cpu, m\<lparr>lastCPUMetrics := \<lparr>usage = cpuUsage p, time = Date_now p\<rparr>\<rparr>))))"

definition reportTopggMetrics_begin_dist :: "Client \<Rightarrow> process \<Rightarrow> Metrics \<Rightarrow> js_error + topgg_request" where
  "reportTopggMetrics_begin_dist c p m =
     (case options_topgg m of
        None \<Rightarrow> Inl (Error ''Cannot post to Top.gg; options not defined'')
      | Some t \<Rightarrow>
          (case gateway_user_id c of
             None \<Rightarrow>
               Inl (Error ''Cannot post to Top.gg: application ID is undefined (client.gateway.user.id)'')
           | Some uid \<Rightarrow>
               if uid = []
               then Inl (Error ''Cannot post to Top.gg: application ID is undefined (client.gateway.user.id)'')
               else topggRequest p (''/bots/'' @ uid @ ''/stats'') (gateway_guildCount c)
                      (if postShards t then Some (length (gateway_shards c)) else None)
                      (topgg_token t)))"

section \<open>Example inputs\<close>

text \<open>
  The decision of the library's transport, as far as the examples need it: a url that
  starts with \<open>http://\<close> or \<open>https://\<close> is supported, and the examples use no other url
  that the library would accept. Then two readings of the process two seconds apart, a
  client with one shard, and a controller constructed with the InfluxDB sink alone.
\<close>

definition http_or_https :: "string \<Rightarrow> bool" where
  "http_or_https u \<longleftrightarrow> take 7 u = ''http://'' \<or> take 8 u = ''https://''"

definition previous_sample :: process where
  "previous_sample =
     \<lparr>cpuUsage = \<lparr>user = 1000, system = 500\<rparr>, Date_now = 0,
      memoryUsage_rss = 50000000, env_TOPGG_TOKEN = None\<rparr>"

definition current_sample :: process where
  "current_sample =
     \<lparr>cpuUsage = \<lparr>user = 3000, system = 1500\<rparr>, Date_now = 2000,
      memoryUsage_rss = 50000000, env_TOPGG_TOKEN = None\<rparr>"

definition example_influxDB :: InfluxDBInput where
  "example_influxDB =
     \<lparr>in_application = ''bot'', in_bucket = ''metrics'', in_extraTags = None,
      in_org = ''org'', in_influx_reportInterval = Some 60000,
      in_influx_token = ''secret'', in_url = ''http://localhost:8086''\<rparr>"

definition example_client :: Client where
  "example_client =
     \<lparr>rest_responseCodeTally = [(''200'', 5)],
      gateway_shards = [\<lparr>shard_id = 0, guilds_size = 3, ping = Count 40, state_name = ''READY''\<rparr>],
      gateway_guildCount = 3, gateway_averagePing = Finite 40,
      gateway_user_id = Some ''4242'', commandHandler_commands = [''1001'']\<rparr>"

definition influxDB_only :: MetricsOptions where
  "influxDB_only = \<lparr>in_influxDB = Some example_influxDB, in_topgg = None\<rparr>"

definition example_controller :: Metrics where
  "example_controller = object (constructor http_or_https previous_sample influxDB_only)"

text \<open>A reading taken in the millisecond of the first one.\<close>

definition same_millisecond :: process where
  "same_millisecond =
     \<lparr>cpuUsage = \<lparr>user = 1200, system = 600\<rparr>, Date_now = 0,
      memoryUsage_rss = 50000000, env_TOPGG_TOKEN = None\<rparr>"

text \<open>
  A later reading, options for the Top.gg sink with and without a token, options with both
  report intervals left at zero, the ways the awaited calls can settle, and a state of the
  event loop in which one scheduled InfluxDB cycle is in flight.
\<close>

definition later_sample :: process where
  "later_sample =
     \<lparr>cpuUsage = \<lparr>user = 3500, system = 1700\<rparr>, Date_now = 4000,
      memoryUsage_rss = 50000000, env_TOPGG_TOKEN = None\<rparr>"

definition example_topgg :: TopggInput where
  "example_topgg =
     \<lparr>in_topgg_reportInterval = Some 1800000, in_postShards = Some True,
      in_topgg_token = Some ''topgg-secret''\<rparr>"

definition topgg_without_token :: TopggInput where
  "topgg_without_token =
     \<lparr>in_topgg_reportInterval = Some 1800000, in_postShards = None, in_topgg_token = None\<rparr>"

definition both_sinks :: MetricsOptions where
  "both_sinks = \<lparr>in_influxDB = Some example_influxDB, in_topgg = Some example_topgg\<rparr>"

definition both_without_token :: MetricsOptions where
  "both_without_token = \<lparr>in_influxDB = Some example_influxDB, in_topgg = Some topgg_without_token\<rparr>"

text \<open>Options whose InfluxDB url names no protocol, and options without report intervals.\<close>

definition without_protocol :: MetricsOptions where
  "without_protocol =
     \<lparr>in_influxDB = Some (example_influxDB\<lparr>in_url := ''localhost:8086''\<rparr>),
      in_topgg = Some topgg_without_token\<rparr>"

definition manual_only :: MetricsOptions where
  "manual_only =
     \<lparr>in_influxDB = Some (example_influxDB\<lparr>in_influx_reportInterval := None\<rparr>),
      in_topgg = Some (example_topgg\<lparr>in_topgg_reportInterval := Some 0\<rparr>)\<rparr>"

definition all_fulfil :: io where
  "all_fulfil = \<lparr>callback_settles = Inr [], close_settles = Inr (), make_settles = Inr ()\<rparr>"

definition transmission_fails :: io where
  "transmission_fails =
     \<lparr>callback_settles = Inr [], close_settles = Inl (Error ''socket hang up''),
      make_settles = Inl (Error ''502 Bad Gateway'')\<rparr>"

definition one_cycle_in_flight :: runtime where
  "one_cycle_in_flight =
     step (Tick InfluxDB example_client current_sample)
       (launch (constructor http_or_https previous_sample both_sinks))"

text \<open>
  Two interactions with a registered command, one of them for a command named
  \<open>constructor\<close>, and a controller that has seen three invocations of \<open>ping\<close> and one
  error of \<open>pong\<close>.
\<close>

definition ping_interaction :: Interaction where
  "ping_interaction =
     \<lparr>interaction_type = ApplicationCommand, data_id = ''1001'', data_name = ''ping''\<rparr>"

definition constructor_interaction :: Interaction where
  "constructor_interaction =
     \<lparr>interaction_type = ApplicationCommand, data_id = ''1001'', data_name = ''constructor''\<rparr>"

definition busy_controller :: Metrics where
  "busy_controller =
     controller
       (run [Gateway example_client ping_interaction, Gateway example_client ping_interaction,
             CommandError ChatCommandContext (Some ''pong''),
             Gateway example_client ping_interaction]
          (launch (constructor http_or_https previous_sample influxDB_only)))"

section \<open>The builders of the client library\<close>

lemma and_then_simps [simp]:
  "and_then (Inl e) f = Inl e"
  "and_then (Inr a) f = f a"
  by (simp_all add: and_then_def)

lemma and_then_Inr:
  "and_then r f = Inr b \<longleftrightarrow> (\<exists>a. r = Inr a \<and> f a = Inr b)"
  by (cases r) simp_all

lemma call_callback_Inr:
  "call_callback cb = Inr cb' \<longleftrightarrow> thrown_by cb = None \<and> cb' = cb"
  by (auto simp add: call_callback_def split: option.splits)

lemma thrown_by_None [simp]: "thrown_by None = None"
  by (simp add: thrown_by_def)

lemma floatField_Inr:
  "floatField k v p = Inr pt \<longleftrightarrow> float_ok v \<and> pt = add_field k (FloatField v) p"
  by (auto simp add: floatField_def)

lemma intField_Inr:
  "intField k v p = Inr pt \<longleftrightarrow> int_ok v \<and> pt = add_field k (IntField v) p"
  by (auto simp add: intField_def)

lemma build_all_Inr:
  "build_all f xs = Inr pts \<Longrightarrow> map f xs = map Inr pts"
  by (induction xs arbitrary: pts) (auto simp add: and_then_Inr)

lemma build_all_map:
  "map f xs = map Inr pts \<Longrightarrow> build_all f xs = Inr pts"
proof (induction xs arbitrary: pts)
  case Nil
  then show ?case by simp
next
  case (Cons x xs)
  then obtain q qs where "pts = q # qs" "f x = Inr q" "map f xs = map Inr qs"
    by (cases pts) auto
  then show ?case using Cons.IH [of qs] by simp
qed

lemma build_all_pure:
  assumes "\<And>x. x \<in> set xs \<Longrightarrow> f x = (if ok x then Inr (g x) else Inl (e x))"
  shows "build_all f xs = Inr pts \<longleftrightarrow> list_all ok xs \<and> pts = map g xs"
proof
  assume "build_all f xs = Inr pts"
  then have m: "map f xs = map Inr pts" by (rule build_all_Inr)
  then have len: "length xs = length pts" by (metis length_map)
  have "\<And>i. i < length xs \<Longrightarrow> ok (xs ! i) \<and> pts ! i = g (xs ! i)"
  proof -
    fix i assume i: "i < length xs"
    then have "f (xs ! i) = Inr (pts ! i)"
      using m len by (metis nth_map)
    moreover have "f (xs ! i) = (if ok (xs ! i) then Inr (g (xs ! i)) else Inl (e (xs ! i)))"
      using assms i by simp
    ultimately show "ok (xs ! i) \<and> pts ! i = g (xs ! i)"
      by (cases "ok (xs ! i)") simp_all
  qed
  then show "list_all ok xs \<and> pts = map g xs"
    using len by (auto simp add: list_all_length intro: nth_equalityI)
next
  assume a: "list_all ok xs \<and> pts = map g xs"
  then have "map f xs = map Inr pts"
    using assms by (auto simp add: list_all_iff)
  then show "build_all f xs = Inr pts" by (rule build_all_map)
qed

lemma set_Object_entries [simp]: "set (Object_entries t) = set t"
  by (auto simp add: Object_entries_def)

lemma processPoint_Inr:
  "processPoint st = Inr pt \<longleftrightarrow>
     float_ok (stats_cpu st) \<and> int_ok (Count (stats_memory st)) \<and>
     int_ok (Count (stats_shardCount st)) \<and> int_ok (Count (stats_shardGuilds st)) \<and>
     float_ok (stats_shardPing st) \<and>
     pt = add_field ''ping'' (FloatField (stats_shardPing st))
            (add_field ''guilds'' (IntField (Count (stats_shardGuilds st)))
              (add_field ''shards'' (IntField (Count (stats_shardCount st)))
                (add_field ''memory'' (IntField (Count (stats_memory st)))
                  (add_field ''cpu'' (FloatField (stats_cpu st)) (new_Point ''process'')))))"
  by (auto simp add: processPoint_def and_then_Inr floatField_Inr intField_Inr)

lemma commandPoints_Inr:
  "commandPoints st = Inr pts \<longleftrightarrow>
     list_all (\<lambda>e. int_ok (snd e)) (stats_commands st) \<and>
     pts = map (\<lambda>e. add_field ''count'' (IntField (snd e)) (tag ''name'' (fst e) (new_Point ''command'')))
             (Object_entries (stats_commands st))"
proof -
  have "commandPoints st = Inr pts \<longleftrightarrow>
     list_all (\<lambda>e. int_ok (snd e)) (Object_entries (stats_commands st)) \<and>
     pts = map (\<lambda>e. add_field ''count'' (IntField (snd e)) (tag ''name'' (fst e) (new_Point ''command'')))
             (Object_entries (stats_commands st))"
    unfolding commandPoints_def
    by (rule build_all_pure [where e = "\<lambda>e. InvalidInteger ''count'' (snd e)"])
      (simp add: intField_def)
  then show ?thesis by (simp add: list_all_iff)
qed

lemma commandErrorPoints_Inr:
  "commandErrorPoints st = Inr pts \<longleftrightarrow>
     list_all (\<lambda>e. int_ok (snd e)) (stats_commands st) \<and>
     pts = map (\<lambda>e. add_field ''count'' (IntField (snd e))
                      (tag ''name'' (fst e) (new_Point ''commandError'')))
             (Object_entries (stats_commands st))"
proof -
  have "commandErrorPoints st = Inr pts \<longleftrightarrow>
     list_all (\<lambda>e. int_ok (snd e)) (Object_entries (stats_commands st)) \<and>
     pts = map (\<lambda>e. add_field ''count'' (IntField (snd e))
                      (tag ''name'' (fst e) (new_Point ''commandError'')))
             (Object_entries (stats_commands st))"
    unfolding commandErrorPoints_def
    by (rule build_all_pure [where e = "\<lambda>e. InvalidInteger ''count'' (snd e)"])
      (simp add: intField_def)
  then show ?thesis by (simp add: list_all_iff)
qed

lemma restPoints_Inr:
  "restPoints st = Inr pts \<longleftrightarrow>
     list_all (\<lambda>e. int_ok (Count (snd e))) (stats_rest st) \<and>
     pts = map (\<lambda>e. add_field ''count'' (IntField (Count (snd e)))
                      (tag ''code'' (fst e) (new_Point ''rest'')))
             (stats_rest st)"
  unfolding restPoints_def
  by (rule build_all_pure [where e = "\<lambda>e. InvalidInteger ''count'' (Count (snd e))"])
    (simp add: intField_def)

lemma shardPoints_Inr:
  "shardPoints st = Inr pts \<longleftrightarrow>
     list_all (\<lambda>sh. int_ok (Count (guilds_size sh)) \<and> int_ok (ping sh)) (stats_shards st) \<and>
     pts = map (\<lambda>sh. stringField ''state'' (state_name sh)
                       (add_field ''ping'' (IntField (ping sh))
                         (add_field ''guilds'' (IntField (Count (guilds_size sh)))
                           (tag ''id'' (digits_of (shard_id sh)) (new_Point ''shard'')))))
             (stats_shards st)"
  unfolding shardPoints_def
  by (rule build_all_pure
      [where e = "\<lambda>sh. if int_ok (Count (guilds_size sh)) then InvalidInteger ''ping'' (ping sh)
                       else InvalidInteger ''guilds'' (Count (guilds_size sh))"])
    (simp add: intField_def)

section \<open>The first part of an InfluxDB cycle\<close>

lemma begin_controller:
  "options_influxDB (snd (reportInfluxDBMetrics_begin c p m)) = options_influxDB m"
  "options_topgg (snd (reportInfluxDBMetrics_begin c p m)) = options_topgg m"
  "influxClient (snd (reportInfluxDBMetrics_begin c p m)) = influxClient m"
  "commands (snd (reportInfluxDBMetrics_begin c p m)) = commands m"
  "commandErrors (snd (reportInfluxDBMetrics_begin c p m)) = commandErrors m"
  "influxDBCallback (snd (reportInfluxDBMetrics_begin c p m)) = influxDBCallback m"
  "lastCPUMetrics (snd (reportInfluxDBMetrics_begin c p m)) =
     (if options_influxDB m \<noteq> None \<and> influxClient m \<noteq> None
      then \<lparr>usage = cpuUsage p, time = Date_now p\<rparr> else lastCPUMetrics m)"
  by (simp_all add: reportInfluxDBMetrics_begin_def Let_def split: option.splits)

lemma begin_Inr:
  "fst (reportInfluxDBMetrics_begin c p m) = Inr cy \<longleftrightarrow>
     (\<exists>i ic. options_influxDB m = Some i \<and> influxClient m = Some ic \<and>
        values_accepted (collect_stats c p m) \<and>
        thrown_by (influxDBCallback m) = None \<and>
        cycle_api cy =
          \<lparr>api_org = org i, api_bucket = bucket i,
           defaultTags = spread [(''application'', application i)] (extraTags i)\<rparr> \<and>
        cycle_callback cy = influxDBCallback m \<and>
        (\<exists>pp cps ceps rps sps.
           processPoint (collect_stats c p m) = Inr pp \<and>
           commandPoints (collect_stats c p m) = Inr cps \<and>
           commandErrorPoints (collect_stats c p m) = Inr ceps \<and>
           restPoints (collect_stats c p m) = Inr rps \<and>
           shardPoints (collect_stats c p m) = Inr sps \<and>
           cycle_points cy = pp # cps @ ceps @ rps @ sps))"
proof (cases "options_influxDB m")
  case None
  then show ?thesis by (simp add: reportInfluxDBMetrics_begin_def)
next
  case (Some i)
  show ?thesis
  proof (cases "influxClient m")
    case None
    then show ?thesis using Some by (simp add: reportInfluxDBMetrics_begin_def)
  next
    case ic: (Some ic)
    let ?st = "collect_stats c p m"
    have acc: "values_accepted ?st \<longleftrightarrow>
        (\<exists>pp. processPoint ?st = Inr pp) \<and> (\<exists>cps. commandPoints ?st = Inr cps) \<and>
        (\<exists>ceps. commandErrorPoints ?st = Inr ceps) \<and> (\<exists>rps. restPoints ?st = Inr rps) \<and>
        (\<exists>sps. shardPoints ?st = Inr sps)"
      by (simp add: values_accepted_def processPoint_Inr commandPoints_Inr
          commandErrorPoints_Inr restPoints_Inr shardPoints_Inr)
    let ?api = "\<lparr>api_org = org i, api_bucket = bucket i,
           defaultTags = spread [(''application'', application i)] (extraTags i)\<rparr>"
    have unf: "fst (reportInfluxDBMetrics_begin c p m) = Inr cy \<longleftrightarrow>
        (\<exists>pp cps ceps rps sps.
           processPoint ?st = Inr pp \<and> commandPoints ?st = Inr cps \<and>
           commandErrorPoints ?st = Inr ceps \<and> restPoints ?st = Inr rps \<and>
           shardPoints ?st = Inr sps \<and> thrown_by (influxDBCallback m) = None \<and>
           cy = \<lparr>cycle_api = ?api, cycle_points = pp # cps @ ceps @ rps @ sps,
                  cycle_callback = influxDBCallback m\<rparr>)"
      using Some ic
      by (simp add: reportInfluxDBMetrics_begin_def Let_def and_then_Inr call_callback_Inr) blast
    show ?thesis
    proof
      assume "fst (reportInfluxDBMetrics_begin c p m) = Inr cy"
      then obtain pp cps ceps rps sps where
        h: "processPoint ?st = Inr pp" "commandPoints ?st = Inr cps"
          "commandErrorPoints ?st = Inr ceps" "restPoints ?st = Inr rps"
          "shardPoints ?st = Inr sps"
          "cy = \<lparr>cycle_api = ?api, cycle_points = pp # cps @ ceps @ rps @ sps,
                  cycle_callback = influxDBCallback m\<rparr>"
          "thrown_by (influxDBCallback m) = None"
        using unf by blast
      have "values_accepted ?st" using acc h by blast
      then show "\<exists>i ic. options_influxDB m = Some i \<and> influxClient m = Some ic \<and>
        values_accepted (collect_stats c p m) \<and>
        thrown_by (influxDBCallback m) = None \<and>
        cycle_api cy =
          \<lparr>api_org = org i, api_bucket = bucket i,
           defaultTags = spread [(''application'', application i)] (extraTags i)\<rparr> \<and>
        cycle_callback cy = influxDBCallback m \<and>
        (\<exists>pp cps ceps rps sps.
           processPoint (collect_stats c p m) = Inr pp \<and>
           commandPoints (collect_stats c p m) = Inr cps \<and>
           commandErrorPoints (collect_stats c p m) = Inr ceps \<and>
           restPoints (collect_stats c p m) = Inr rps \<and>
           shardPoints (collect_stats c p m) = Inr sps \<and>
           cycle_points cy = pp # cps @ ceps @ rps @ sps)"
        using Some ic h by auto
    next
      assume "\<exists>i ic. options_influxDB m = Some i \<and> influxClient m = Some ic \<and>
        values_accepted (collect_stats c p m) \<and>
        thrown_by (influxDBCallback m) = None \<and>
        cycle_api cy =
          \<lparr>api_org = org i, api_bucket = bucket i,
           defaultTags = spread [(''application'', application i)] (extraTags i)\<rparr> \<and>
        cycle_callback cy = influxDBCallback m \<and>
        (\<exists>pp cps ceps rps sps.
           processPoint (collect_stats c p m) = Inr pp \<and>
           commandPoints (collect_stats c p m) = Inr cps \<and>
           commandErrorPoints (collect_stats c p m) = Inr ceps \<and>
           restPoints (collect_stats c p m) = Inr rps \<and>
           shardPoints (collect_stats c p m) = Inr sps \<and>
           cycle_points cy = pp # cps @ ceps @ rps @ sps)"
      then obtain pp cps ceps rps sps where
        h: "processPoint ?st = Inr pp" "commandPoints ?st = Inr cps"
          "commandErrorPoints ?st = Inr ceps" "restPoints ?st = Inr rps"
          "shardPoints ?st = Inr sps"
          "cycle_points cy = pp # cps @ ceps @ rps @ sps"
          "cycle_api cy = ?api" "cycle_callback cy = influxDBCallback m"
          "thrown_by (influxDBCallback m) = None"
        using Some by auto
      have "cy = \<lparr>cycle_api = ?api, cycle_points = pp # cps @ ceps @ rps @ sps,
                  cycle_callback = influxDBCallback m\<rparr>"
        using h(6,7,8) by (intro influx_cycle.equality) simp_all
      then show "fst (reportInfluxDBMetrics_begin c p m) = Inr cy"
        using unf h by blast
    qed
  qed
qed

lemma begin_reaches:
  "(\<exists>cy. fst (reportInfluxDBMetrics_begin c p m) = Inr cy) \<longleftrightarrow>
     options_influxDB m \<noteq> None \<and> influxClient m \<noteq> None \<and>
     values_accepted (collect_stats c p m) \<and> thrown_by (influxDBCallback m) = None"
proof
  assume "\<exists>cy. fst (reportInfluxDBMetrics_begin c p m) = Inr cy"
  then obtain cy where "fst (reportInfluxDBMetrics_begin c p m) = Inr cy"
    by blast
  then show "options_influxDB m \<noteq> None \<and> influxClient m \<noteq> None \<and>
     values_accepted (collect_stats c p m) \<and> thrown_by (influxDBCallback m) = None"
    unfolding begin_Inr by auto
next
  let ?st = "collect_stats c p m"
  assume a: "options_influxDB m \<noteq> None \<and> influxClient m \<noteq> None \<and> values_accepted ?st \<and>
    thrown_by (influxDBCallback m) = None"
  then obtain i ic where o: "options_influxDB m = Some i" "influxClient m = Some ic" by auto
  obtain pp cps ceps rps sps where
    h: "processPoint ?st = Inr pp" "commandPoints ?st = Inr cps"
      "commandErrorPoints ?st = Inr ceps" "restPoints ?st = Inr rps" "shardPoints ?st = Inr sps"
    using a
    by (auto simp add: values_accepted_def processPoint_Inr commandPoints_Inr
        commandErrorPoints_Inr restPoints_Inr shardPoints_Inr)
  have "fst (reportInfluxDBMetrics_begin c p m) =
      Inr \<lparr>cycle_api = \<lparr>api_org = org i, api_bucket = bucket i,
              defaultTags = spread [(''application'', application i)] (extraTags i)\<rparr>,
            cycle_points = pp # cps @ ceps @ rps @ sps,
            cycle_callback = influxDBCallback m\<rparr>"
    unfolding begin_Inr using o a h by simp
  then show "\<exists>cy. fst (reportInfluxDBMetrics_begin c p m) = Inr cy" by blast
qed

lemma begin_callback_throws:
  assumes "options_influxDB m \<noteq> None" and "influxClient m \<noteq> None"
    and "values_accepted (collect_stats c p m)" and "thrown_by (influxDBCallback m) = Some e"
  shows "fst (reportInfluxDBMetrics_begin c p m) = Inl e"
proof -
  let ?st = "collect_stats c p m"
  obtain i ic where o: "options_influxDB m = Some i" "influxClient m = Some ic"
    using assms(1,2) by auto
  obtain pp cps ceps rps sps where
    h: "processPoint ?st = Inr pp" "commandPoints ?st = Inr cps"
      "commandErrorPoints ?st = Inr ceps" "restPoints ?st = Inr rps" "shardPoints ?st = Inr sps"
    using assms(3)
    by (auto simp add: values_accepted_def processPoint_Inr commandPoints_Inr
        commandErrorPoints_Inr restPoints_Inr shardPoints_Inr)
  show ?thesis
    by (simp add: reportInfluxDBMetrics_begin_def Let_def o h call_callback_def assms(4))
qed

lemma begin_points:
  assumes "fst (reportInfluxDBMetrics_begin c p m) = Inr cy"
  shows "cycle_points cy =
     add_field ''ping'' (FloatField (gateway_averagePing c))
       (add_field ''guilds'' (IntField (Count (gateway_guildCount c)))
         (add_field ''shards'' (IntField (Count (length (gateway_shards c))))
           (add_field ''memory'' (IntField (Count (memoryUsage_rss p)))
             (add_field ''cpu'' (FloatField (stats_cpu (collect_stats c p m)))
                (new_Point ''process''))))) #
     map (\<lambda>e. add_field ''count'' (IntField (snd e)) (tag ''name'' (fst e) (new_Point ''command'')))
       (Object_entries (commands m)) @
     map (\<lambda>e. add_field ''count'' (IntField (snd e))
                (tag ''name'' (fst e) (new_Point ''commandError'')))
       (Object_entries (commands m)) @
     map (\<lambda>e. add_field ''count'' (IntField (Count (snd e)))
                (tag ''code'' (fst e) (new_Point ''rest'')))
       (rest_responseCodeTally c) @
     map (\<lambda>sh. stringField ''state'' (state_name sh)
                 (add_field ''ping'' (IntField (ping sh))
                   (add_field ''guilds'' (IntField (Count (guilds_size sh)))
                     (tag ''id'' (digits_of (shard_id sh)) (new_Point ''shard'')))))
       (gateway_shards c)"
proof -
  let ?st = "collect_stats c p m"
  obtain pp cps ceps rps sps where
    h: "processPoint ?st = Inr pp" "commandPoints ?st = Inr cps"
      "commandErrorPoints ?st = Inr ceps" "restPoints ?st = Inr rps" "shardPoints ?st = Inr sps"
      "cycle_points cy = pp # cps @ ceps @ rps @ sps"
    using assms unfolding begin_Inr by blast
  have st: "stats_commands ?st = commands m" "stats_rest ?st = rest_responseCodeTally c"
    "stats_shards ?st = gateway_shards c" "stats_shardPing ?st = gateway_averagePing c"
    "stats_shardGuilds ?st = gateway_guildCount c" "stats_shardCount ?st = length (gateway_shards c)"
    "stats_memory ?st = memoryUsage_rss p"
    by (simp_all add: collect_stats_def)
  show ?thesis
    using h(1) [unfolded processPoint_Inr] h(2) [unfolded commandPoints_Inr]
      h(3) [unfolded commandErrorPoints_Inr] h(4) [unfolded restPoints_Inr]
      h(5) [unfolded shardPoints_Inr] h(6)
    by (simp only: st)
qed

section \<open>What the steps of the event loop leave alone\<close>

lemma reject_simps [simp]:
  "timers (reject og e rt) = timers rt"
  "listeners (reject og e rt) = listeners rt"
  "controller (reject og e rt) = controller rt"
  "ticks (reject og e rt) = ticks rt"
  "in_flight (reject og e rt) = in_flight rt"
  "handed (reject og e rt) = handed rt"
  "console_error (reject Scheduled e rt) = console_error rt @ [e]"
  "rejections (reject Scheduled e rt) = rejections rt"
  "console_error (reject Manual e rt) = console_error rt"
  "rejections (reject Manual e rt) = rejections rt @ [e]"
  by (simp_all add: reject_def split: origin.splits)

lemma begin_cycle_frame [simp]:
  "timers (begin_cycle og s c p rt) = timers rt"
  "listeners (begin_cycle og s c p rt) = listeners rt"
  "ticks (begin_cycle og s c p rt) = ticks rt"
  "handed (begin_cycle og s c p rt) = handed rt"
  by (simp_all add: begin_cycle_def split: sink.splits sum.splits)

lemma settle_frame [simp]:
  "timers (settle i x rt) = timers rt"
  "listeners (settle i x rt) = listeners rt"
  "ticks (settle i x rt) = ticks rt"
  "controller (settle i x rt) = controller rt"
  by (simp_all add: settle_def Let_def split: sum.splits)

lemma step_timers [simp]: "timers (step ev rt) = timers rt"
  by (cases ev) simp_all

lemma step_listeners [simp]: "listeners (step ev rt) = listeners rt"
  by (cases ev) simp_all

lemma run_timers [simp]: "timers (run evs rt) = timers rt"
  by (induction evs arbitrary: rt) simp_all

lemma run_listeners [simp]: "listeners (run evs rt) = listeners rt"
  by (induction evs arbitrary: rt) simp_all

lemma begin_cycle_options [simp]:
  "options_influxDB (controller (begin_cycle og s c p rt)) = options_influxDB (controller rt)"
  "options_topgg (controller (begin_cycle og s c p rt)) = options_topgg (controller rt)"
  "influxClient (controller (begin_cycle og s c p rt)) = influxClient (controller rt)"
  "commands (controller (begin_cycle og s c p rt)) = commands (controller rt)"
  "commandErrors (controller (begin_cycle og s c p rt)) = commandErrors (controller rt)"
  "influxDBCallback (controller (begin_cycle og s c p rt)) = influxDBCallback (controller rt)"
  by (simp_all add: begin_cycle_def begin_controller split: sink.splits sum.splits)

lemma step_options [simp]:
  "options_influxDB (controller (step ev rt)) = options_influxDB (controller rt)"
  "options_topgg (controller (step ev rt)) = options_topgg (controller rt)"
  "influxClient (controller (step ev rt)) = influxClient (controller rt)"
proof -
  show "options_influxDB (controller (step ev rt)) = options_influxDB (controller rt)"
    by (cases ev) (simp_all add: on_INTERACTION_CREATE_def on_error_def incrementCommandError_def
      setInfluxDBCallback_def)
  show "options_topgg (controller (step ev rt)) = options_topgg (controller rt)"
    by (cases ev) (simp_all add: on_INTERACTION_CREATE_def on_error_def incrementCommandError_def
      setInfluxDBCallback_def)
  show "influxClient (controller (step ev rt)) = influxClient (controller rt)"
    by (cases ev) (simp_all add: on_INTERACTION_CREATE_def on_error_def incrementCommandError_def
      setInfluxDBCallback_def)
qed

lemma run_options [simp]:
  "options_influxDB (controller (run evs rt)) = options_influxDB (controller rt)"
  "options_topgg (controller (run evs rt)) = options_topgg (controller rt)"
  "influxClient (controller (run evs rt)) = influxClient (controller rt)"
  by (induction evs arbitrary: rt) simp_all

lemma step_ticks: "set (ticks (step ev rt)) \<subseteq> set (ticks rt) \<union> fst ` set (timers rt)"
  by (cases ev) auto

lemma run_ticks: "set (ticks (run evs rt)) \<subseteq> set (ticks rt) \<union> fst ` set (timers rt)"
proof (induction evs arbitrary: rt)
  case Nil
  then show ?case by simp
next
  case (Cons ev evs)
  have "set (ticks (run evs (step ev rt))) \<subseteq> set (ticks (step ev rt)) \<union> fst ` set (timers (step ev rt))"
    by (rule Cons.IH)
  with step_ticks [of ev rt] show ?case by auto
qed

lemma launch_simps [simp]:
  "controller (launch cn) = object cn"
  "timers (launch cn) = armed cn"
  "listeners (launch cn) = listening cn"
  "ticks (launch cn) = []"
  "in_flight (launch cn) = []"
  "console_error (launch cn) = []"
  "rejections (launch cn) = []"
  by (simp_all add: launch_def)

section \<open>The first await of a report call\<close>

lemma throws_at_once_influxDB:
  "throws_at_once InfluxDB c p m = None \<longleftrightarrow>
     options_influxDB m \<noteq> None \<and> influxClient m \<noteq> None \<and>
     values_accepted (collect_stats c p m) \<and> thrown_by (influxDBCallback m) = None"
  using begin_reaches [of c p m]
  by (auto simp add: throws_at_once_def split: sum.splits)

lemma throws_at_once_topgg:
  "throws_at_once Topgg c p m = None \<longleftrightarrow>
     (\<exists>t. options_topgg m = Some t \<and>
          (\<not> no_token (topgg_token t) \<or> \<not> no_token (env_TOPGG_TOKEN p)))"
  by (auto simp add: throws_at_once_def reportTopggMetrics_begin_def topggRequest_def
      split: sum.splits option.splits)

lemma begin_cycle_started:
  assumes "throws_at_once s c p (controller rt) = None"
  shows "\<exists>cy. sink_of cy = s \<and> in_flight (begin_cycle og s c p rt) = in_flight rt @ [(og, cy)]"
    and "console_error (begin_cycle og s c p rt) = console_error rt"
    and "rejections (begin_cycle og s c p rt) = rejections rt"
  using assms
  by (cases s; auto simp add: throws_at_once_def begin_cycle_def split: sum.splits)+

lemma begin_cycle_thrown:
  assumes "throws_at_once s c p (controller rt) = Some e"
  shows "in_flight (begin_cycle og s c p rt) = in_flight rt"
    and "console_error (begin_cycle Scheduled s c p rt) = console_error rt @ [e]"
    and "rejections (begin_cycle Manual s c p rt) = rejections rt @ [e]"
  using assms
  by (cases s; auto simp add: throws_at_once_def begin_cycle_def split: sum.splits)+

lemma tick_runs:
  assumes "s \<in> fst ` set (timers rt)"
  shows "ticks (step (Tick s c p) rt) = ticks rt @ [s]"
  using assms by simp

lemma tick_starts_cycle:
  assumes "s \<in> fst ` set (timers rt)" and "throws_at_once s c p (controller rt) = None"
  shows "scheduled_in_flight s (step (Tick s c p) rt) = Suc (scheduled_in_flight s rt)"
    and "console_error (step (Tick s c p) rt) = console_error rt"
proof -
  let ?rt = "rt\<lparr>ticks := ticks rt @ [s]\<rparr>"
  have t: "throws_at_once s c p (controller ?rt) = None" using assms(2) by simp
  obtain cy where "sink_of cy = s"
    "in_flight (begin_cycle Scheduled s c p ?rt) = in_flight ?rt @ [(Scheduled, cy)]"
    using begin_cycle_started(1) [OF t] by blast
  then show "scheduled_in_flight s (step (Tick s c p) rt) = Suc (scheduled_in_flight s rt)"
    using assms(1) by (simp add: scheduled_in_flight_def)
  show "console_error (step (Tick s c p) rt) = console_error rt"
    using assms(1) begin_cycle_started(2) [OF t] by simp
qed

lemma tick_throws:
  assumes "s \<in> fst ` set (timers rt)" and "throws_at_once s c p (controller rt) = Some e"
  shows "scheduled_in_flight s (step (Tick s c p) rt) = scheduled_in_flight s rt"
    and "console_error (step (Tick s c p) rt) = console_error rt @ [e]"
proof -
  let ?rt = "rt\<lparr>ticks := ticks rt @ [s]\<rparr>"
  have t: "throws_at_once s c p (controller ?rt) = Some e" using assms(2) by simp
  show "scheduled_in_flight s (step (Tick s c p) rt) = scheduled_in_flight s rt"
    using assms(1) begin_cycle_thrown(1) [OF t] by (simp add: scheduled_in_flight_def)
  show "console_error (step (Tick s c p) rt) = console_error rt @ [e]"
    using assms(1) begin_cycle_thrown(2) [OF t] by simp
qed

text \<open>
  The earlier revision, as far as it is modelled: before its first \<open>await\<close> its InfluxDB
  call throws at the guard only, for it builds its points and calls the callback after it
  has awaited the pings; its Top.gg call throws at once when the gateway has no user id.
\<close>

lemma earlier_revision_first_await:
  "(\<exists>b. reportInfluxDBMetrics_begin_dist p m = Inr b) \<longleftrightarrow>
     options_influxDB m \<noteq> None \<and> influxClient m \<noteq> None"
  "(\<exists>rq. reportTopggMetrics_begin_dist c p m = Inr rq) \<longleftrightarrow>
     (\<exists>t uid. options_topgg m = Some t \<and> gateway_user_id c = Some uid \<and> uid \<noteq> [] \<and>
          (\<not> no_token (topgg_token t) \<or> \<not> no_token (env_TOPGG_TOKEN p)))"
  "reportTopggMetrics_begin_dist c p m = Inr rq \<Longrightarrow>
     route rq = ''/bots/'' @ the (gateway_user_id c) @ ''/stats''"
  by (auto simp add: reportInfluxDBMetrics_begin_dist_def reportTopggMetrics_begin_dist_def
      topggRequest_def Let_def split: option.splits if_splits)

section \<open>The examples, evaluated\<close>

lemmas example_defs = previous_sample_def current_sample_def example_influxDB_def example_client_def
  influxDB_only_def

lemma example_controller_fields:
  "options_influxDB example_controller = Some (resolve_influxDB example_influxDB)"
  "influxClient example_controller = Some \<lparr>client_token = ''secret'', client_url = ''http://localhost:8086''\<rparr>"
  "lastCPUMetrics example_controller = \<lparr>usage = \<lparr>user = 1000, system = 500\<rparr>, time = 0\<rparr>"
  "options_topgg example_controller = None"
  "commands example_controller = []"
  "commandErrors example_controller = []"
  "influxDBCallback example_controller = None"
  by (simp_all add: example_controller_def example_defs constructor_def field_initializers_def
      resolve_influxDB_def new_InfluxDB_def http_or_https_def Let_def)

lemma example_values_accepted:
  "values_accepted (collect_stats example_client current_sample example_controller)"
  by (simp add: values_accepted_def collect_stats_def example_controller_fields
      current_sample_def example_client_def js_divide_def float_ok_def int_ok_def)

lemma same_millisecond_throws:
  assumes "options_influxDB m \<noteq> None" and "influxClient m \<noteq> None"
    and "lastCPUMetrics m = \<lparr>usage = \<lparr>user = 1000, system = 500\<rparr>, time = 0\<rparr>"
  shows "fst (reportInfluxDBMetrics_begin c same_millisecond m) = Inl (InvalidFloat ''cpu'' PosInfinity)"
  using assms
  by (auto simp add: reportInfluxDBMetrics_begin_def Let_def processPoint_def floatField_def
      float_ok_def collect_stats_def js_divide_def same_millisecond_def)

section \<open>The CPU percentage\<close>

lemma begin_process_point:
  assumes "fst (reportInfluxDBMetrics_begin c p m) = Inr cy"
  shows "measurement (hd (cycle_points cy)) = ''process''"
    and "map_of (point_fields (hd (cycle_points cy))) ''cpu'' =
           Some (FloatField (stats_cpu (collect_stats c p m)))"
proof -
  have v: "values_accepted (collect_stats c p m)"
    using begin_reaches [of c p m] assms by blast
  show "measurement (hd (cycle_points cy)) = ''process''"
    using begin_points [OF assms]
    by (simp add: new_Point_def add_field_def)
  show "map_of (point_fields (hd (cycle_points cy))) ''cpu'' =
           Some (FloatField (stats_cpu (collect_stats c p m)))"
    using begin_points [OF assms]
    by (simp add: new_Point_def add_field_def)
qed

text \<open>
  Claim C2. When a call of \<open>reportInfluxDBMetrics\<close> passes the configuration guard and the
  current time differs from that of the retained sample, the value computed for \<open>cpu\<close> is
  \<open>100 * ((system - last.system) + (user - last.user)) / ((time - last.time) * 1000)\<close>: it
  is a finite number, the builder of the \<open>process\<close> point accepts it, the earlier revision
  holds it in its local \<open>cpu\<close>, and whenever the library accepts all the values of the
  sample and the callback does not throw, the call reaches its first \<open>await\<close> with a
  \<open>process\<close> point that carries it in its \<open>cpu\<close> field. For the samples
  \<open>{user: 1000, system: 500}\<close> at \<open>0\<close> and \<open>{user: 3000, system: 1500}\<close> at \<open>2000\<close> the
  witness evaluates it to \<open>0.15\<close>.
\<close>

theorem C2_cpu_percentage:
  assumes "options_influxDB m = Some i" and "influxClient m = Some ic"
    and "Date_now p \<noteq> time (lastCPUMetrics m)"
  shows "stats_cpu (collect_stats c p m) =
       Finite
         (of_int (100 * ((system (cpuUsage p) - system (usage (lastCPUMetrics m))) +
                         (user (cpuUsage p) - user (usage (lastCPUMetrics m))))) /
          of_int ((Date_now p - time (lastCPUMetrics m)) * 1000)) \<and>
     floatField ''cpu'' (stats_cpu (collect_stats c p m)) (new_Point ''process'') =
       Inr (add_field ''cpu''
         (FloatField (Finite
           (of_int (100 * ((system (cpuUsage p) - system (usage (lastCPUMetrics m))) +
                           (user (cpuUsage p) - user (usage (lastCPUMetrics m))))) /
            of_int ((Date_now p - time (lastCPUMetrics m)) * 1000))))
         (new_Point ''process'')) \<and>
     (\<exists>b'. reportInfluxDBMetrics_begin_dist p m = Inr b' \<and>
        fst b' =
          Finite
            (of_int (100 * ((system (cpuUsage p) - system (usage (lastCPUMetrics m))) +
                            (user (cpuUsage p) - user (usage (lastCPUMetrics m))))) /
             of_int ((Date_now p - time (lastCPUMetrics m)) * 1000))) \<and>
     (values_accepted (collect_stats c p m) \<and> thrown_by (influxDBCallback m) = None \<longrightarrow>
        (\<exists>cy. fst (reportInfluxDBMetrics_begin c p m) = Inr cy \<and>
           measurement (hd (cycle_points cy)) = ''process'' \<and>
           map_of (point_fields (hd (cycle_points cy))) ''cpu'' =
             Some (FloatField (Finite
               (of_int (100 * ((system (cpuUsage p) - system (usage (lastCPUMetrics m))) +
                               (user (cpuUsage p) - user (usage (lastCPUMetrics m))))) /
                of_int ((Date_now p - time (lastCPUMetrics m)) * 1000)))))) \<and>
     (\<forall>cy. fst (reportInfluxDBMetrics_begin c p m) = Inr cy \<longrightarrow>
           measurement (hd (cycle_points cy)) = ''process'' \<and>
           map_of (point_fields (hd (cycle_points cy))) ''cpu'' =
             Some (FloatField (Finite
               (of_int (100 * ((system (cpuUsage p) - system (usage (lastCPUMetrics m))) +
                               (user (cpuUsage p) - user (usage (lastCPUMetrics m))))) /
                of_int ((Date_now p - time (lastCPUMetrics m)) * 1000)))))"
proof -
  let ?q = "Finite
         (of_int (100 * ((system (cpuUsage p) - system (usage (lastCPUMetrics m))) +
                         (user (cpuUsage p) - user (usage (lastCPUMetrics m))))) /
          of_int ((Date_now p - time (lastCPUMetrics m)) * 1000))"
  have 1: "stats_cpu (collect_stats c p m) = ?q"
    using assms(3) by (simp add: collect_stats_def js_divide_def)
  have 2: "floatField ''cpu'' (stats_cpu (collect_stats c p m)) (new_Point ''process'') =
       Inr (add_field ''cpu'' (FloatField ?q) (new_Point ''process''))"
    unfolding 1 by (simp add: floatField_def float_ok_def)
  have 3: "\<exists>b'. reportInfluxDBMetrics_begin_dist p m = Inr b' \<and> fst b' = ?q"
    using assms by (simp add: reportInfluxDBMetrics_begin_dist_def js_divide_def Let_def)
  have 5: "measurement (hd (cycle_points cy)) = ''process'' \<and>
           map_of (point_fields (hd (cycle_points cy))) ''cpu'' = Some (FloatField ?q)"
    if "fst (reportInfluxDBMetrics_begin c p m) = Inr cy" for cy
    using begin_process_point [OF that] 1 by simp
  have 4: "\<exists>cy. fst (reportInfluxDBMetrics_begin c p m) = Inr cy \<and>
           measurement (hd (cycle_points cy)) = ''process'' \<and>
           map_of (point_fields (hd (cycle_points cy))) ''cpu'' = Some (FloatField ?q)"
    if "values_accepted (collect_stats c p m) \<and> thrown_by (influxDBCallback m) = None"
  proof -
    have "\<exists>cy. fst (reportInfluxDBMetrics_begin c p m) = Inr cy"
      unfolding begin_reaches using assms(1,2) that by simp
    then show ?thesis using 5 by blast
  qed
  show ?thesis using 1 2 3 4 5 by blast
qed

theorem C2_cpu_percentage_witness:
  "Date_now current_sample \<noteq> time (lastCPUMetrics example_controller) \<and>
   values_accepted (collect_stats example_client current_sample example_controller) \<and>
   thrown_by (influxDBCallback example_controller) = None \<and>
   stats_cpu (collect_stats example_client current_sample example_controller) = Finite (15 / 100) \<and>
   (\<exists>cy. fst (reportInfluxDBMetrics_begin example_client current_sample example_controller) = Inr cy \<and>
      map_of (point_fields (hd (cycle_points cy))) ''cpu'' = Some (FloatField (Finite (15 / 100)))) \<and>
   (\<exists>b'. reportInfluxDBMetrics_begin_dist current_sample example_controller = Inr b' \<and>
      fst b' = Finite (15 / 100))"
proof -
  have h: "Date_now current_sample \<noteq> time (lastCPUMetrics example_controller)"
    by (simp add: example_controller_fields current_sample_def)
  have q: "Finite
         (of_int (100 * ((system (cpuUsage current_sample) - system (usage (lastCPUMetrics example_controller))) +
                         (user (cpuUsage current_sample) - user (usage (lastCPUMetrics example_controller))))) /
          of_int ((Date_now current_sample - time (lastCPUMetrics example_controller)) * 1000)) =
        Finite (15 / 100)"
    by (simp add: example_controller_fields current_sample_def)
  have cb: "thrown_by (influxDBCallback example_controller) = None"
    by (simp add: example_controller_fields)
  show ?thesis
    using C2_cpu_percentage [OF example_controller_fields(1,2) h, of example_client]
      example_values_accepted h cb
    unfolding q by blast
qed

section \<open>The retained CPU sample\<close>

lemma begin_cycle_controller:
  "controller (begin_cycle og InfluxDB c p rt) = snd (reportInfluxDBMetrics_begin c p (controller rt))"
  "controller (begin_cycle og Topgg c p rt) = controller rt"
  by (simp_all add: begin_cycle_def split: sum.splits)

text \<open>
  Claim C8. Every call of \<open>reportInfluxDBMetrics\<close> that passes the configuration guard
  replaces \<open>_lastCPUMetrics\<close> by the sample just taken. The assignment stands before the
  points are built and before the first \<open>await\<close> in both revisions, so it has happened
  when the call throws while it builds a point or calls the callback, it has happened
  when the cycle is in flight, and it stays whatever the callback and the transmission do
  afterwards. The
  witness is a cycle whose transmission fails and a call that throws in the builder of
  its first point.
\<close>

theorem C8_last_sample_replaced:
  assumes "options_influxDB (controller rt) = Some i" and "influxClient (controller rt) = Some ic"
  shows "lastCPUMetrics (metrics_after (reportInfluxDBMetrics c p x (controller rt))) =
           \<lparr>usage = cpuUsage p, time = Date_now p\<rparr> \<and>
         lastCPUMetrics (snd (reportInfluxDBMetrics_begin c p (controller rt))) =
           \<lparr>usage = cpuUsage p, time = Date_now p\<rparr> \<and>
         (\<exists>b. reportInfluxDBMetrics_begin_dist p (controller rt) = Inr b \<and>
               lastCPUMetrics (snd b) = \<lparr>usage = cpuUsage p, time = Date_now p\<rparr>) \<and>
         lastCPUMetrics (controller (begin_cycle og InfluxDB c p rt)) =
           \<lparr>usage = cpuUsage p, time = Date_now p\<rparr> \<and>
         lastCPUMetrics (controller (settle j x (begin_cycle og InfluxDB c p rt))) =
           \<lparr>usage = cpuUsage p, time = Date_now p\<rparr>"
proof -
  have 1: "lastCPUMetrics (snd (reportInfluxDBMetrics_begin c p (controller rt))) =
           \<lparr>usage = cpuUsage p, time = Date_now p\<rparr>"
    using begin_controller(7) [where m = "controller rt" and c = c and p = p] assms by simp
  have 2: "lastCPUMetrics (metrics_after (reportInfluxDBMetrics c p x (controller rt))) =
           \<lparr>usage = cpuUsage p, time = Date_now p\<rparr>"
    using 1 by (simp add: reportInfluxDBMetrics_def split: sum.splits)
  have 3: "\<exists>b. reportInfluxDBMetrics_begin_dist p (controller rt) = Inr b \<and>
               lastCPUMetrics (snd b) = \<lparr>usage = cpuUsage p, time = Date_now p\<rparr>"
    using assms by (simp add: reportInfluxDBMetrics_begin_dist_def Let_def)
  have 4: "lastCPUMetrics (controller (begin_cycle og InfluxDB c p rt)) =
           \<lparr>usage = cpuUsage p, time = Date_now p\<rparr>"
    using 1 by (simp add: begin_cycle_controller)
  have 5: "lastCPUMetrics (controller (settle j x (begin_cycle og InfluxDB c p rt))) =
           \<lparr>usage = cpuUsage p, time = Date_now p\<rparr>"
    using 4 by simp
  show ?thesis using 1 2 3 4 5 by blast
qed

theorem C8_last_sample_replaced_witness:
  "settled (reportInfluxDBMetrics example_client current_sample transmission_fails
      (controller (launch (constructor http_or_https previous_sample influxDB_only)))) = Inl (Error ''socket hang up'') \<and>
   lastCPUMetrics (metrics_after (reportInfluxDBMetrics example_client current_sample transmission_fails
      (controller (launch (constructor http_or_https previous_sample influxDB_only))))) =
     \<lparr>usage = \<lparr>user = 3000, system = 1500\<rparr>, time = 2000\<rparr> \<and>
   lastCPUMetrics (controller (settle 0 transmission_fails
      (begin_cycle Scheduled InfluxDB example_client current_sample
         (launch (constructor http_or_https previous_sample influxDB_only))))) =
     \<lparr>usage = \<lparr>user = 3000, system = 1500\<rparr>, time = 2000\<rparr> \<and>
   settled (reportInfluxDBMetrics example_client same_millisecond all_fulfil
      (controller (launch (constructor http_or_https previous_sample influxDB_only)))) =
     Inl (InvalidFloat ''cpu'' PosInfinity) \<and>
   lastCPUMetrics (metrics_after (reportInfluxDBMetrics example_client same_millisecond all_fulfil
      (controller (launch (constructor http_or_https previous_sample influxDB_only))))) =
     \<lparr>usage = \<lparr>user = 1200, system = 600\<rparr>, time = 0\<rparr>"
proof -
  have c: "controller (launch (constructor http_or_https previous_sample influxDB_only)) = example_controller"
    by (simp add: example_controller_def)
  have "\<exists>cy. fst (reportInfluxDBMetrics_begin example_client current_sample example_controller) = Inr cy"
    unfolding begin_reaches using example_values_accepted example_controller_fields(1,2,7) by simp
  then obtain cy where cy: "fst (reportInfluxDBMetrics_begin example_client current_sample example_controller) = Inr cy"
    by blast
  have f: "settled (reportInfluxDBMetrics example_client current_sample transmission_fails
      example_controller) = Inl (Error ''socket hang up'')"
    using cy
    by (simp add: reportInfluxDBMetrics_def reportInfluxDBMetrics_finish_def transmission_fails_def
        split: option.splits)
  have g: "settled (reportInfluxDBMetrics example_client same_millisecond all_fulfil
      example_controller) = Inl (InvalidFloat ''cpu'' PosInfinity)"
    using same_millisecond_throws [of example_controller example_client]
    by (simp add: reportInfluxDBMetrics_def example_controller_fields)
  show ?thesis
    using C8_last_sample_replaced [of "launch (constructor http_or_https previous_sample influxDB_only)" _ _
        example_client current_sample transmission_fails Scheduled 0,
        unfolded c, OF example_controller_fields(1,2)]
      C8_last_sample_replaced [of "launch (constructor http_or_https previous_sample influxDB_only)" _ _
        example_client same_millisecond all_fulfil Scheduled 0,
        unfolded c, OF example_controller_fields(1,2)] f g
    by (simp add: example_controller_def [symmetric] current_sample_def same_millisecond_def)
qed

lemmas more_example_defs = later_sample_def example_topgg_def topgg_without_token_def both_sinks_def
  both_without_token_def manual_only_def all_fulfil_def transmission_fails_def
  same_millisecond_def without_protocol_def

section \<open>What the constructor leaves behind\<close>

lemma constructor_unsupported:
  assumes "in_influxDB opts = Some i" and "\<not> supports (in_url i)"
  shows "thrown (constructor supports p opts) = Some (UnsupportedProtocol (in_url i))"
    and "armed (constructor supports p opts) = []"
    and "listening (constructor supports p opts) = []"
    and "construction_log (constructor supports p opts) = []"
  using assms
  by (simp_all add: constructor_def Let_def new_InfluxDB_def resolve_influxDB_def
      field_initializers_def)

lemma constructor_object:
  "options_influxDB (object (constructor supports p opts)) =
     map_option resolve_influxDB (in_influxDB opts)"
  "options_topgg (object (constructor supports p opts)) =
     map_option (resolve_topgg p) (in_topgg opts)"
  "thrown (constructor supports p opts) = None \<Longrightarrow>
   influxClient (object (constructor supports p opts)) =
     map_option (\<lambda>i. \<lparr>client_token = in_influx_token i, client_url = in_url i\<rparr>) (in_influxDB opts)"
  "commands (object (constructor supports p opts)) = []"
  "commandErrors (object (constructor supports p opts)) = []"
  "influxDBCallback (object (constructor supports p opts)) = None"
  "lastCPUMetrics (object (constructor supports p opts)) = \<lparr>usage = cpuUsage p, time = Date_now p\<rparr>"
proof -
  show "options_influxDB (object (constructor supports p opts)) =
      map_option resolve_influxDB (in_influxDB opts)"
    by (cases "in_influxDB opts"; cases "in_topgg opts";
        simp add: constructor_def Let_def field_initializers_def new_InfluxDB_def)
  show "options_topgg (object (constructor supports p opts)) =
      map_option (resolve_topgg p) (in_topgg opts)"
    by (cases "in_influxDB opts"; cases "in_topgg opts";
        simp add: constructor_def Let_def field_initializers_def new_InfluxDB_def)
  show "thrown (constructor supports p opts) = None \<Longrightarrow>
   influxClient (object (constructor supports p opts)) =
     map_option (\<lambda>i. \<lparr>client_token = in_influx_token i, client_url = in_url i\<rparr>) (in_influxDB opts)"
    by (cases "in_influxDB opts"; cases "in_topgg opts";
        simp add: constructor_def Let_def field_initializers_def new_InfluxDB_def
          resolve_influxDB_def split: if_splits)
  show "commands (object (constructor supports p opts)) = []"
    by (cases "in_influxDB opts"; cases "in_topgg opts";
        simp add: constructor_def Let_def field_initializers_def new_InfluxDB_def)
  show "commandErrors (object (constructor supports p opts)) = []"
    by (cases "in_influxDB opts"; cases "in_topgg opts";
        simp add: constructor_def Let_def field_initializers_def new_InfluxDB_def)
  show "influxDBCallback (object (constructor supports p opts)) = None"
    by (cases "in_influxDB opts"; cases "in_topgg opts";
        simp add: constructor_def Let_def field_initializers_def new_InfluxDB_def)
  show "lastCPUMetrics (object (constructor supports p opts)) =
      \<lparr>usage = cpuUsage p, time = Date_now p\<rparr>"
    by (cases "in_influxDB opts"; cases "in_topgg opts";
        simp add: constructor_def Let_def field_initializers_def new_InfluxDB_def)
qed

lemma constructor_armed_influxDB:
  "(InfluxDB \<in> fst ` set (armed (constructor supports p opts))) =
     (\<exists>i. in_influxDB opts = Some i \<and> supports (in_url i) \<and>
          influx_reportInterval (resolve_influxDB i) \<noteq> 0)"
  by (cases "in_influxDB opts"; cases "in_topgg opts";
      auto simp add: constructor_def Let_def field_initializers_def new_InfluxDB_def
        resolve_influxDB_def)

lemma constructor_armed_topgg:
  "(Topgg \<in> fst ` set (armed (constructor supports p opts))) =
     ((\<forall>i. in_influxDB opts = Some i \<longrightarrow> supports (in_url i)) \<and>
      (\<exists>t. in_topgg opts = Some t \<and> \<not> no_token (topgg_token (resolve_topgg p t)) \<and>
           topgg_reportInterval (resolve_topgg p t) \<noteq> 0))"
  by (cases "in_influxDB opts"; cases "in_topgg opts";
      auto simp add: constructor_def Let_def field_initializers_def new_InfluxDB_def
        resolve_influxDB_def)

lemma constructor_thrown:
  "(thrown (constructor supports p opts) = None) =
     ((\<forall>i. in_influxDB opts = Some i \<longrightarrow> supports (in_url i)) \<and>
      (\<forall>t. in_topgg opts = Some t \<longrightarrow> \<not> no_token (topgg_token (resolve_topgg p t))))"
  by (cases "in_influxDB opts"; cases "in_topgg opts";
      simp add: constructor_def Let_def field_initializers_def new_InfluxDB_def
        resolve_influxDB_def)

lemma constructor_armed_client:
  assumes "InfluxDB \<in> fst ` set (armed (constructor supports p opts))"
  shows "options_influxDB (object (constructor supports p opts)) \<noteq> None"
    and "influxClient (object (constructor supports p opts)) \<noteq> None"
  using assms
  by (cases "in_influxDB opts"; cases "in_topgg opts";
      auto simp add: constructor_def Let_def field_initializers_def new_InfluxDB_def
        resolve_influxDB_def split: if_splits)+

lemma never_ticks:
  assumes "s \<notin> fst ` set (armed cn)"
  shows "s \<notin> set (ticks (run evs (launch cn)))"
  using run_ticks [of evs "launch cn"] assms by auto

lemma armed_throws_at_once:
  assumes "s \<in> fst ` set (armed (constructor supports p0 opts))"
    and "options_influxDB m = options_influxDB (object (constructor supports p0 opts))"
    and "options_topgg m = options_topgg (object (constructor supports p0 opts))"
    and "influxClient m = influxClient (object (constructor supports p0 opts))"
  shows "throws_at_once s c p m = None \<longleftrightarrow>
           (s = InfluxDB \<longrightarrow>
              values_accepted (collect_stats c p m) \<and> thrown_by (influxDBCallback m) = None)"
proof (cases s)
  case InfluxDB
  then show ?thesis
    using constructor_armed_client [of supports p0 opts] assms
    by (simp add: throws_at_once_influxDB)
next
  case Topgg
  then show ?thesis
    using assms(1,3)
    by (auto simp add: throws_at_once_topgg constructor_armed_topgg constructor_object)
qed

section \<open>Timer ticks\<close>

lemma collect_stats_cong:
  assumes "commands m' = commands m" and "commandErrors m' = commandErrors m"
    and "lastCPUMetrics m' = lastCPUMetrics m"
  shows "collect_stats c p m' = collect_stats c p m"
  using assms by (simp add: collect_stats_def)

lemma example_client_accepted:
  assumes "list_all (\<lambda>e. int_ok (snd e)) (commands m)"
    and "Date_now p \<noteq> time (lastCPUMetrics m)"
    and "memoryUsage_rss p = 50000000"
  shows "values_accepted (collect_stats example_client p m)"
  using assms
  by (simp add: values_accepted_def collect_stats_def example_client_def js_divide_def
      float_ok_def int_ok_def)

lemma tick_controller:
  assumes "InfluxDB \<in> fst ` set (timers rt)"
    and "options_influxDB (controller rt) \<noteq> None" and "influxClient (controller rt) \<noteq> None"
  shows "commands (controller (step (Tick InfluxDB c p) rt)) = commands (controller rt)"
    and "lastCPUMetrics (controller (step (Tick InfluxDB c p) rt)) =
           \<lparr>usage = cpuUsage p, time = Date_now p\<rparr>"
    and "influxDBCallback (controller (step (Tick InfluxDB c p) rt)) =
           influxDBCallback (controller rt)"
  using assms by (simp_all add: begin_cycle_controller begin_controller)

lemma armed_influxDB_only:
  "armed (constructor http_or_https previous_sample influxDB_only) = [(InfluxDB, 60000)]"
  by (simp add: constructor_def example_defs Let_def field_initializers_def resolve_influxDB_def
      new_InfluxDB_def http_or_https_def)

lemma launch_example:
  "controller (launch (constructor http_or_https previous_sample influxDB_only)) = example_controller"
  by (simp add: example_controller_def)




section \<open>Construction without a Top.gg token\<close>

lemma constructor_without_token:
  assumes "in_topgg opts = Some t" and "in_topgg_token t = None" and "env_TOPGG_TOKEN p = None"
    and "\<forall>i. in_influxDB opts = Some i \<longrightarrow> supports (in_url i)"
  shows "thrown (constructor supports p opts) = Some (Error ''Top.gg API token is undefined'')"
    and "listening (constructor supports p opts) = []"
    and "construction_log (constructor supports p opts) = []"
    and "armed (constructor supports p opts) =
           (case in_influxDB opts of
              None \<Rightarrow> []
            | Some i \<Rightarrow>
                (case in_influx_reportInterval i of
                   None \<Rightarrow> []
                 | Some n \<Rightarrow> if n = 0 then [] else [(InfluxDB, n)]))"
proof -
  have tk: "no_token (topgg_token (resolve_topgg p t))"
    using assms by (simp add: resolve_topgg_def no_token_def)
  show "thrown (constructor supports p opts) = Some (Error ''Top.gg API token is undefined'')"
    using tk assms(1,4)
    by (cases "in_influxDB opts")
      (simp_all add: constructor_def Let_def new_InfluxDB_def resolve_influxDB_def
        field_initializers_def)
  show "listening (constructor supports p opts) = []"
    using tk assms(1,4)
    by (cases "in_influxDB opts")
      (simp_all add: constructor_def Let_def new_InfluxDB_def resolve_influxDB_def
        field_initializers_def)
  show "construction_log (constructor supports p opts) = []"
    using tk assms(1,4)
    by (cases "in_influxDB opts")
      (simp_all add: constructor_def Let_def new_InfluxDB_def resolve_influxDB_def
        field_initializers_def)
  show "armed (constructor supports p opts) =
           (case in_influxDB opts of
              None \<Rightarrow> []
            | Some i \<Rightarrow>
                (case in_influx_reportInterval i of
                   None \<Rightarrow> []
                 | Some n \<Rightarrow> if n = 0 then [] else [(InfluxDB, n)]))"
    using tk assms(1,4)
    by (cases "in_influxDB opts")
      (simp_all add: constructor_def Let_def new_InfluxDB_def resolve_influxDB_def
        field_initializers_def split: option.splits)
qed

text \<open>
  Claim C4 says that the constructor throws before any timer is armed. The InfluxDB sink
  is set up first: with both sinks enabled and no Top.gg token, the constructor throws
  after it has armed the InfluxDB timer.
\<close>

theorem C4_timer_armed_before_throw:
  "thrown (constructor http_or_https previous_sample both_without_token) =
     Some (Error ''Top.gg API token is undefined'') \<and>
   armed (constructor http_or_https previous_sample both_without_token) = [(InfluxDB, 60000)]"
  by (simp add: constructor_def Let_def field_initializers_def resolve_topgg_def
      resolve_influxDB_def no_token_def new_InfluxDB_def http_or_https_def
      example_defs more_example_defs)

text \<open>
  Claim C4, amended. With the Top.gg sink enabled, no token in its options and no
  \<open>TOPGG_TOKEN\<close> in the environment, the constructor throws before it arms the Top.gg
  timer, before it attaches the gateway listener and before it logs, so no Top.gg tick
  ever runs. When the InfluxDB sink is disabled or \<open>new InfluxDB\<close> accepts its url, what
  is thrown is \<open>Top.gg API token is undefined\<close>, and the only timer armed at that point
  is that of the InfluxDB sink, when that sink is enabled with a non-zero interval. When
  \<open>new InfluxDB\<close> refuses the url, the constructor throws the library's error instead,
  before it arms any timer and before it looks at the Top.gg token.
\<close>

theorem C4_missing_token_throws:
  assumes "in_topgg opts = Some t" and "in_topgg_token t = None" and "env_TOPGG_TOKEN p = None"
  shows "thrown (constructor supports p opts) \<noteq> None \<and>
         Topgg \<notin> fst ` set (armed (constructor supports p opts)) \<and>
         Topgg \<notin> set (ticks (run evs (launch (constructor supports p opts)))) \<and>
         listening (constructor supports p opts) = [] \<and>
         construction_log (constructor supports p opts) = [] \<and>
         ((\<forall>i. in_influxDB opts = Some i \<longrightarrow> supports (in_url i)) \<longrightarrow>
            thrown (constructor supports p opts) = Some (Error ''Top.gg API token is undefined'') \<and>
            armed (constructor supports p opts) =
              (case in_influxDB opts of
                 None \<Rightarrow> []
               | Some i \<Rightarrow>
                   (case in_influx_reportInterval i of
                      None \<Rightarrow> []
                    | Some n \<Rightarrow> if n = 0 then [] else [(InfluxDB, n)]))) \<and>
         (\<forall>i. in_influxDB opts = Some i \<and> \<not> supports (in_url i) \<longrightarrow>
            thrown (constructor supports p opts) = Some (UnsupportedProtocol (in_url i)) \<and>
            armed (constructor supports p opts) = [])"
proof -
  let ?cn = "constructor supports p opts"
  have tk: "no_token (topgg_token (resolve_topgg p t))"
    using assms by (simp add: resolve_topgg_def no_token_def)
  have 1: "thrown ?cn \<noteq> None"
    using assms(1) tk by (simp add: constructor_thrown)
  have 2: "Topgg \<notin> fst ` set (armed ?cn)"
    using assms(1) tk by (simp add: constructor_armed_topgg)
  have 3: "Topgg \<notin> set (ticks (run evs (launch ?cn)))"
    using never_ticks [OF 2] .
  have 4: "listening ?cn = []"
  proof (cases "\<forall>i. in_influxDB opts = Some i \<longrightarrow> supports (in_url i)")
    case True
    then show ?thesis using constructor_without_token(2) [OF assms] by simp
  next
    case False
    then obtain i where "in_influxDB opts = Some i" "\<not> supports (in_url i)" by blast
    then show ?thesis using constructor_unsupported(3) by simp
  qed
  have 7: "construction_log ?cn = []"
  proof (cases "\<forall>i. in_influxDB opts = Some i \<longrightarrow> supports (in_url i)")
    case True
    then show ?thesis using constructor_without_token(3) [OF assms] by simp
  next
    case False
    then obtain i where "in_influxDB opts = Some i" "\<not> supports (in_url i)" by blast
    then show ?thesis using constructor_unsupported(4) by simp
  qed
  have 5: "thrown ?cn = Some (Error ''Top.gg API token is undefined'') \<and>
            armed ?cn =
              (case in_influxDB opts of
                 None \<Rightarrow> []
               | Some i \<Rightarrow>
                   (case in_influx_reportInterval i of
                      None \<Rightarrow> []
                    | Some n \<Rightarrow> if n = 0 then [] else [(InfluxDB, n)]))"
    if "\<forall>i. in_influxDB opts = Some i \<longrightarrow> supports (in_url i)"
    using constructor_without_token(1,4) [OF assms that] by simp
  have 6: "thrown ?cn = Some (UnsupportedProtocol (in_url i)) \<and> armed ?cn = []"
    if "in_influxDB opts = Some i \<and> \<not> supports (in_url i)" for i
    using constructor_unsupported(1,2) that by simp
  show ?thesis using 1 2 3 4 5 6 7 by blast
qed

theorem C4_missing_token_throws_witness:
  "in_topgg both_without_token = Some topgg_without_token \<and>
   in_topgg_token topgg_without_token = None \<and>
   env_TOPGG_TOKEN previous_sample = None \<and>
   thrown (constructor http_or_https previous_sample both_without_token) =
     Some (Error ''Top.gg API token is undefined'') \<and>
   armed (constructor http_or_https previous_sample both_without_token) = [(InfluxDB, 60000)] \<and>
   Topgg \<notin> set (ticks (run [Tick Topgg example_client current_sample]
                          (launch (constructor http_or_https previous_sample both_without_token)))) \<and>
   listening (constructor http_or_https previous_sample both_without_token) = [] \<and>
   construction_log (constructor http_or_https previous_sample both_without_token) = [] \<and>
   in_topgg without_protocol = Some topgg_without_token \<and>
   thrown (constructor http_or_https previous_sample without_protocol) =
     Some (UnsupportedProtocol ''localhost:8086'') \<and>
   armed (constructor http_or_https previous_sample without_protocol) = []"
proof -
  have h: "in_topgg both_without_token = Some topgg_without_token"
    "in_topgg_token topgg_without_token = None"
    "env_TOPGG_TOKEN previous_sample = None"
    by (simp_all add: example_defs more_example_defs)
  have h': "in_topgg without_protocol = Some topgg_without_token"
    by (simp add: more_example_defs)
  have u: "\<forall>i. in_influxDB both_without_token = Some i \<longrightarrow> http_or_https (in_url i)"
    by (simp add: example_defs more_example_defs http_or_https_def)
  have i: "in_influxDB both_without_token = Some example_influxDB"
    "in_influx_reportInterval example_influxDB = Some 60000"
    by (simp_all add: example_defs more_example_defs)
  have u': "in_influxDB without_protocol = Some (example_influxDB\<lparr>in_url := ''localhost:8086''\<rparr>) \<and>
     \<not> http_or_https (in_url (example_influxDB\<lparr>in_url := ''localhost:8086''\<rparr>))"
    by (simp add: example_defs more_example_defs http_or_https_def)
  note w1 = C4_missing_token_throws [OF h, where supports = http_or_https
      and evs = "[Tick Topgg example_client current_sample]"]
  note w2 = C4_missing_token_throws [OF h' h(2,3), where supports = http_or_https and evs = "[]"]
  have a1: "thrown (constructor http_or_https previous_sample both_without_token) =
     Some (Error ''Top.gg API token is undefined'') \<and>
     armed (constructor http_or_https previous_sample both_without_token) = [(InfluxDB, 60000)]"
    using w1 u by (simp add: i)
  have a2: "thrown (constructor http_or_https previous_sample without_protocol) =
     Some (UnsupportedProtocol ''localhost:8086'') \<and>
     armed (constructor http_or_https previous_sample without_protocol) = []"
    using w2 u' by fastforce
  show ?thesis
    using h h' a1 a2 w1 by blast
qed

section \<open>Failed cycles\<close>

lemma settle_failure:
  assumes "i < length (in_flight rt)" and "fst (in_flight rt ! i) = og"
    and "fst (finish_cycle x (snd (in_flight rt ! i))) = Inl e"
  shows "settle i x rt =
           reject og e
             (rt\<lparr>in_flight := take i (in_flight rt) @ drop (Suc i) (in_flight rt),
                 handed := add_effects (handed rt) (snd (finish_cycle x (snd (in_flight rt ! i))))\<rparr>)"
  using assms by (simp add: settle_def Let_def)


lemma both_sinks_construction:
  "thrown (constructor http_or_https previous_sample both_sinks) = None"
  "armed (constructor http_or_https previous_sample both_sinks) = [(InfluxDB, 60000), (Topgg, 1800000)]"
  "listening (constructor http_or_https previous_sample both_sinks) = [''INTERACTION_CREATE'']"
  by (simp_all add: constructor_def Let_def field_initializers_def resolve_topgg_def
      resolve_influxDB_def no_token_def new_InfluxDB_def http_or_https_def
      example_defs more_example_defs)

lemma one_cycle_in_flight_facts:
  "timers one_cycle_in_flight = [(InfluxDB, 60000), (Topgg, 1800000)]"
  "throws_at_once Topgg example_client later_sample (controller one_cycle_in_flight) = None"
  "throws_at_once InfluxDB example_client later_sample (controller one_cycle_in_flight) = None"
  "length (in_flight one_cycle_in_flight) = 1"
  "fst (in_flight one_cycle_in_flight ! 0) = Scheduled"
  "fst (finish_cycle transmission_fails (snd (in_flight one_cycle_in_flight ! 0))) =
     Inl (Error ''socket hang up'')"
  "console_error one_cycle_in_flight = []"
  "ticks one_cycle_in_flight = [InfluxDB]"
proof -
  let ?cn = "constructor http_or_https previous_sample both_sinks"
  let ?rt0 = "launch ?cn"
  have a: "InfluxDB \<in> fst ` set (armed ?cn)" "Topgg \<in> fst ` set (armed ?cn)"
    by (simp_all add: both_sinks_construction)
  have t0: "InfluxDB \<in> fst ` set (timers ?rt0)" using a by simp
  have o0: "options_influxDB (controller ?rt0) \<noteq> None" "influxClient (controller ?rt0) \<noteq> None"
    using constructor_armed_client [OF a(1)] by simp_all
  have m0: "commands (controller ?rt0) = []"
    "lastCPUMetrics (controller ?rt0) = \<lparr>usage = cpuUsage previous_sample, time = Date_now previous_sample\<rparr>"
    by (simp_all add: constructor_object)
  have v0: "values_accepted (collect_stats example_client current_sample (controller ?rt0))"
    by (rule example_client_accepted)
      (simp_all only: m0, simp_all add: previous_sample_def current_sample_def)
  have c0: "throws_at_once InfluxDB example_client current_sample (controller ?rt0) = None"
    unfolding throws_at_once_influxDB using v0 o0 by (simp add: constructor_object)
  have m1: "commands (controller one_cycle_in_flight) = []"
    "lastCPUMetrics (controller one_cycle_in_flight) =
       \<lparr>usage = cpuUsage current_sample, time = Date_now current_sample\<rparr>"
    "thrown_by (influxDBCallback (controller one_cycle_in_flight)) = None"
    unfolding one_cycle_in_flight_def
    using tick_controller [OF t0 o0, of example_client current_sample] m0(1)
    by (simp_all add: constructor_object)
  have v1: "values_accepted (collect_stats example_client later_sample (controller one_cycle_in_flight))"
    by (rule example_client_accepted)
      (simp_all only: m1(1,2), simp_all add: later_sample_def current_sample_def)
  show "timers one_cycle_in_flight = [(InfluxDB, 60000), (Topgg, 1800000)]"
    unfolding one_cycle_in_flight_def by (simp only: step_timers launch_simps both_sinks_construction)
  show "throws_at_once Topgg example_client later_sample (controller one_cycle_in_flight) = None"
    unfolding one_cycle_in_flight_def
    using armed_throws_at_once [OF a(2), of "controller (step (Tick InfluxDB example_client current_sample) ?rt0)"
        example_client later_sample]
    by (simp del: step.simps)
  show "throws_at_once InfluxDB example_client later_sample (controller one_cycle_in_flight) = None"
    unfolding one_cycle_in_flight_def
    using armed_throws_at_once [OF a(1), of "controller (step (Tick InfluxDB example_client current_sample) ?rt0)"
        example_client later_sample] v1 [unfolded one_cycle_in_flight_def]
      m1(3) [unfolded one_cycle_in_flight_def]
    by (simp del: step.simps)
  obtain cy where cy: "fst (reportInfluxDBMetrics_begin example_client current_sample (controller ?rt0)) = Inr cy"
    using c0 by (auto simp add: throws_at_once_def split: sum.splits)
  have fl: "in_flight one_cycle_in_flight = [(Scheduled, InfluxCycle cy)]"
    unfolding one_cycle_in_flight_def
    using cy a by (simp add: begin_cycle_def)
  have cb: "cycle_callback cy = None"
    using cy unfolding begin_Inr by (auto simp add: constructor_object)
  show "length (in_flight one_cycle_in_flight) = 1" using fl by simp
  show "fst (in_flight one_cycle_in_flight ! 0) = Scheduled" using fl by simp
  show "fst (finish_cycle transmission_fails (snd (in_flight one_cycle_in_flight ! 0))) =
     Inl (Error ''socket hang up'')"
    using fl cb by (simp add: finish_cycle_def reportInfluxDBMetrics_finish_def transmission_fails_def)
  show "console_error one_cycle_in_flight = []"
    unfolding one_cycle_in_flight_def
    using tick_starts_cycle(2) [OF t0 c0] by simp
  show "ticks one_cycle_in_flight = [InfluxDB]"
    unfolding one_cycle_in_flight_def
    using tick_runs [OF t0] by simp
qed


section \<open>Sinks without a report interval\<close>

lemma length_Object_entries [simp]: "length (Object_entries t) = length t"
  by (simp add: Object_entries_def sum_length_filter_compl)

lemma begin_measurements:
  assumes "fst (reportInfluxDBMetrics_begin c p m) = Inr cy"
  shows "map measurement (cycle_points cy) =
           ''process'' # replicate (length (commands m)) ''command'' @
           replicate (length (commands m)) ''commandError'' @
           replicate (length (rest_responseCodeTally c)) ''rest'' @
           replicate (length (gateway_shards c)) ''shard''"
  unfolding begin_points [OF assms]
  by (simp add: add_field_def tag_def new_Point_def stringField_def map_replicate_const o_def)

lemma influx_call_fulfils:
  assumes "fst (reportInfluxDBMetrics_begin c p m) = Inr cy"
    and "callback_settles x = Inr pts" and "close_settles x = Inr ()"
  shows "settled (reportInfluxDBMetrics c p x m) = Inr ()"
    and "caused (reportInfluxDBMetrics c p x m) =
           \<lparr>written = [(cycle_api cy, cycle_points cy @ (if cycle_callback cy = None then [] else pts))],
            requested = [],
            logged = [Wrote (length (cycle_points cy) +
                             (if cycle_callback cy = None then 0 else length pts))]\<rparr>"
  using assms
  by (simp_all add: reportInfluxDBMetrics_def reportInfluxDBMetrics_finish_def Let_def
      split: option.splits)

lemma influx_call_rejects:
  assumes "fst (reportInfluxDBMetrics_begin c p m) = Inl e"
  shows "settled (reportInfluxDBMetrics c p x m) = Inl e"
    and "caused (reportInfluxDBMetrics c p x m) = no_effects"
  using assms by (simp_all add: reportInfluxDBMetrics_def)

lemma topgg_call_fulfils:
  assumes "options_topgg m = Some t" and "\<not> no_token (topgg_token t)"
    and "make_settles x = Inr ()"
  shows "settled (reportTopggMetrics c p x m) = Inr ()"
    and "caused (reportTopggMetrics c p x m) =
           \<lparr>written = [],
            requested = [\<lparr>route = ''/bots/stats'', server_count = gateway_guildCount c,
                          shard_count = (if postShards t then Some (length (gateway_shards c)) else None),
                          authHeader = topgg_token t\<rparr>],
            logged = [Posted]\<rparr>"
  using assms
  by (auto simp add: reportTopggMetrics_def reportTopggMetrics_begin_def topggRequest_def
      reportTopggMetrics_finish_def no_token_def split: option.splits)

lemma add_no_effects [simp]: "add_effects a no_effects = a"
  by (simp add: add_effects_def no_effects_def)

text \<open>
  A call from the host program through the event loop, settled before anything else
  happens, is the whole call.
\<close>

lemma manual_influxDB_through_loop:
  "controller (settle (length (in_flight rt)) x (step (Invoke InfluxDB c p) rt)) =
     metrics_after (reportInfluxDBMetrics c p x (controller rt))"
  "handed (settle (length (in_flight rt)) x (step (Invoke InfluxDB c p) rt)) =
     add_effects (handed rt) (caused (reportInfluxDBMetrics c p x (controller rt)))"
  "rejections (settle (length (in_flight rt)) x (step (Invoke InfluxDB c p) rt)) =
     rejections rt @
     (case settled (reportInfluxDBMetrics c p x (controller rt)) of Inl e \<Rightarrow> [e] | Inr u \<Rightarrow> [])"
  "in_flight (settle (length (in_flight rt)) x (step (Invoke InfluxDB c p) rt)) = in_flight rt"
  "console_error (settle (length (in_flight rt)) x (step (Invoke InfluxDB c p) rt)) =
     console_error rt"
  by (cases "fst (reportInfluxDBMetrics_begin c p (controller rt))";
      cases "fst (reportInfluxDBMetrics_finish x (projr (fst (reportInfluxDBMetrics_begin c p (controller rt)))))";
      simp add: begin_cycle_def settle_def reportInfluxDBMetrics_def finish_cycle_def Let_def)+

lemma manual_topgg_through_loop:
  "controller (settle (length (in_flight rt)) x (step (Invoke Topgg c p) rt)) =
     metrics_after (reportTopggMetrics c p x (controller rt))"
  "handed (settle (length (in_flight rt)) x (step (Invoke Topgg c p) rt)) =
     add_effects (handed rt) (caused (reportTopggMetrics c p x (controller rt)))"
  "rejections (settle (length (in_flight rt)) x (step (Invoke Topgg c p) rt)) =
     rejections rt @
     (case settled (reportTopggMetrics c p x (controller rt)) of Inl e \<Rightarrow> [e] | Inr u \<Rightarrow> [])"
  "in_flight (settle (length (in_flight rt)) x (step (Invoke Topgg c p) rt)) = in_flight rt"
  "console_error (settle (length (in_flight rt)) x (step (Invoke Topgg c p) rt)) =
     console_error rt"
  by (cases "reportTopggMetrics_begin c p (controller rt)";
      cases "fst (reportTopggMetrics_finish x (projr (reportTopggMetrics_begin c p (controller rt))))";
      simp add: begin_cycle_def settle_def reportTopggMetrics_def finish_cycle_def Let_def)+

lemma manual_only_construction:
  "thrown (constructor http_or_https previous_sample manual_only) = None"
  "in_influxDB manual_only = Some (example_influxDB\<lparr>in_influx_reportInterval := None\<rparr>)"
  "in_influx_reportInterval (example_influxDB\<lparr>in_influx_reportInterval := None\<rparr>) = None"
  "in_topgg manual_only = Some (example_topgg\<lparr>in_topgg_reportInterval := Some 0\<rparr>)"
  "in_topgg_reportInterval (example_topgg\<lparr>in_topgg_reportInterval := Some 0\<rparr>) = Some 0"
  "armed (constructor http_or_https previous_sample manual_only) = []"
  "listening (constructor http_or_https previous_sample manual_only) = [''INTERACTION_CREATE'']"
  by (simp_all add: constructor_def Let_def field_initializers_def resolve_topgg_def
      resolve_influxDB_def no_token_def new_InfluxDB_def http_or_https_def
      example_defs more_example_defs)

lemma manual_only_controller:
  "options_influxDB (object (constructor http_or_https previous_sample manual_only)) \<noteq> None"
  "influxClient (object (constructor http_or_https previous_sample manual_only)) \<noteq> None"
  "lastCPUMetrics (object (constructor http_or_https previous_sample manual_only)) =
     \<lparr>usage = \<lparr>user = 1000, system = 500\<rparr>, time = 0\<rparr>"
  "commands (object (constructor http_or_https previous_sample manual_only)) = []"
  using manual_only_construction(1,2)
  by (simp_all add: constructor_object previous_sample_def)

lemma NaN_tally_throws:
  assumes "options_influxDB m \<noteq> None" and "influxClient m \<noteq> None"
    and "commands m = [(k, NaN)]"
    and "lastCPUMetrics m = \<lparr>usage = \<lparr>user = 1000, system = 500\<rparr>, time = 0\<rparr>"
  shows "fst (reportInfluxDBMetrics_begin example_client later_sample m) =
           Inl (InvalidInteger ''count'' NaN)"
  using assms
  by (auto simp add: reportInfluxDBMetrics_begin_def Let_def processPoint_def
      commandPoints_def floatField_def intField_def
      float_ok_def int_ok_def collect_stats_def js_divide_def later_sample_def example_client_def
      Object_entries_def)


lemma metrics_after_influxDB:
  "metrics_after (reportInfluxDBMetrics c p x m) = snd (reportInfluxDBMetrics_begin c p m)"
  by (simp add: reportInfluxDBMetrics_def split: sum.splits)

lemma begin_controller_eq:
  assumes "options_influxDB m \<noteq> None" and "influxClient m \<noteq> None"
  shows "snd (reportInfluxDBMetrics_begin c p m) =
           m\<lparr>lastCPUMetrics := \<lparr>usage = cpuUsage p, time = Date_now p\<rparr>\<rparr>"
  using assms by (auto simp add: reportInfluxDBMetrics_begin_def Let_def)



section \<open>Tallies\<close>

text \<open>
  What \<open>t[k] ??= 0; t[k]++\<close> does to the entry of \<open>k\<close> and to the others. For a name that
  \<open>Object.prototype\<close> does not define the entry is created at one or counted up; for
  one that it defines the value read is a function, so nothing is created by \<open>??=\<close> and
  \<open>++\<close> stores \<open>NaN\<close> (\<open>__proto__\<close>: stores nothing).
\<close>

lemma map_of_increment_other:
  "k' \<noteq> k \<Longrightarrow> map_of (increment t k) k' = map_of t k'"
  by (simp add: increment_def postfix_increment_def nullish_assign_def set_property_def
      get_property_def update_conv' split: option.splits property.splits)

lemma map_of_increment_safe:
  "k \<notin> set Object_prototype \<Longrightarrow>
   map_of (increment t k) k =
     Some (count_succ (case map_of t k of None \<Rightarrow> Count 0 | Some c \<Rightarrow> c))"
  by (auto simp add: increment_def postfix_increment_def nullish_assign_def set_property_def
      get_property_def update_conv' to_numeric_def Object_prototype_def
      split: option.splits property.splits)

lemma increment_proto: "increment t ''__proto__'' = t"
  by (simp add: increment_def postfix_increment_def nullish_assign_def set_property_def
      get_property_def Object_prototype_def split: option.splits property.splits)

lemma map_of_increment_inherited:
  assumes "k \<in> set Object_prototype" and "k \<noteq> ''__proto__''"
  shows "map_of (increment t k) k =
           Some (case map_of t k of None \<Rightarrow> NaN | Some c \<Rightarrow> count_succ c)"
  using assms
  by (auto simp add: increment_def postfix_increment_def nullish_assign_def set_property_def
      get_property_def update_conv' to_numeric_def count_succ_def
      split: option.splits property.splits)

lemma count_succ_funpow:
  "m + n \<le> 9007199254740992 \<Longrightarrow> (count_succ ^^ n) (Count m) = Count (m + n)"
  by (induction n) (simp_all add: count_succ_def)

lemma foldl_increment_other:
  "l \<notin> set ks \<Longrightarrow> map_of (foldl increment t ks) l = map_of t l"
  by (induction ks arbitrary: t) (simp_all add: map_of_increment_other)

lemma foldl_increment_safe:
  assumes "l \<notin> set Object_prototype"
  shows "map_of (foldl increment t ks) l =
           (if l \<in> set ks
            then Some ((count_succ ^^ count_list ks l)
                         (case map_of t l of None \<Rightarrow> Count 0 | Some c \<Rightarrow> c))
            else map_of t l)"
proof (induction ks arbitrary: t)
  case Nil
  then show ?case by simp
next
  case (Cons k ks)
  show ?case
  proof (cases "k = l")
    case True
    then show ?thesis
      using Cons.IH [of "increment t l"] map_of_increment_safe [OF assms, of t]
      by (simp add: funpow_swap1)
  next
    case False
    then show ?thesis
      using Cons.IH [of "increment t k"] map_of_increment_other [of l k t]
      by simp
  qed
qed

text \<open>
  For a label that \<open>Object.prototype\<close> does not define, a sequence of increments from the
  empty tally leaves the number of increments of that label (up to \<open>2^53\<close>), whatever the
  order of the sequence.
\<close>

lemma tally_counts:
  assumes "l \<notin> set Object_prototype" and "count_list ks l \<le> 9007199254740992"
  shows "map_of (foldl increment [] ks) l =
           (if l \<in> set ks then Some (Count (count_list ks l)) else None)"
  using foldl_increment_safe [OF assms(1), of "[]" ks] count_succ_funpow [of 0 "count_list ks l"] assms(2)
  by simp

lemma tally_order_independent:
  assumes "l \<notin> set Object_prototype" and "count_list ks l = count_list ks' l"
  shows "map_of (foldl increment [] ks) l = map_of (foldl increment [] ks') l"
proof -
  have "l \<in> set ks \<longleftrightarrow> l \<in> set ks'"
    using assms(2) by (metis count_list_0_iff)
  then show ?thesis
    using foldl_increment_safe [OF assms(1), of "[]" ks] foldl_increment_safe [OF assms(1), of "[]" ks']
      assms(2) by simp
qed

lemmas increment_defs = increment_def postfix_increment_def nullish_assign_def set_property_def
  get_property_def to_numeric_def Object_prototype_def count_succ_def

text \<open>
  Claim C5 (the count of a label is the number of its increments, for every sequence of
  increments from the empty tally) fails on the code for the labels that
  \<open>Object.prototype\<close> defines: one or two increments of \<open>constructor\<close> leave \<open>NaN\<close>, and
  an increment of \<open>__proto__\<close> leaves no entry. Other labels are counted.
\<close>

theorem C5_inherited_name_counts_NaN:
  "foldl increment [] [''constructor''] = [(''constructor'', NaN)] \<and>
   foldl increment [] [''constructor'', ''constructor''] = [(''constructor'', NaN)] \<and>
   foldl increment [] [''__proto__''] = [] \<and>
   foldl increment [] [''ping'', ''pong'', ''ping''] = [(''ping'', Count 2), (''pong'', Count 1)]"
  by (simp add: increment_def postfix_increment_def nullish_assign_def set_property_def
      get_property_def to_numeric_def Object_prototype_def count_succ_def)

section \<open>The points of the tallies\<close>

lemma influxDB_only_construction:
  "thrown (constructor http_or_https previous_sample influxDB_only) = None"
  "listening (constructor http_or_https previous_sample influxDB_only) = [''INTERACTION_CREATE'']"
  "object (constructor http_or_https previous_sample influxDB_only) = example_controller"
  by (simp_all add: example_controller_def constructor_def Let_def field_initializers_def
      new_InfluxDB_def http_or_https_def resolve_influxDB_def example_defs)

lemma busy_controller_fields:
  "commands busy_controller = [(''ping'', Count 3)]"
  "commandErrors busy_controller = [(''pong'', Count 1)]"
  "options_influxDB busy_controller = Some (resolve_influxDB example_influxDB)"
  "influxClient busy_controller = Some \<lparr>client_token = ''secret'', client_url = ''http://localhost:8086''\<rparr>"
  "influxDBCallback busy_controller = None"
  "lastCPUMetrics busy_controller = \<lparr>usage = \<lparr>user = 1000, system = 500\<rparr>, time = 0\<rparr>"
proof -
  show "lastCPUMetrics busy_controller = \<lparr>usage = \<lparr>user = 1000, system = 500\<rparr>, time = 0\<rparr>"
    by (simp add: busy_controller_def influxDB_only_construction example_controller_fields
        on_INTERACTION_CREATE_def on_error_def incrementCommandError_def ping_interaction_def
        example_client_def)
  show "commands busy_controller = [(''ping'', Count 3)]"
    by (simp add: busy_controller_def influxDB_only_construction example_controller_fields
        on_INTERACTION_CREATE_def on_error_def incrementCommandError_def ping_interaction_def
        example_client_def increment_defs)
  show "commandErrors busy_controller = [(''pong'', Count 1)]"
    by (simp add: busy_controller_def influxDB_only_construction example_controller_fields
        on_INTERACTION_CREATE_def on_error_def incrementCommandError_def ping_interaction_def
        example_client_def increment_defs)
  show "options_influxDB busy_controller = Some (resolve_influxDB example_influxDB)"
    unfolding busy_controller_def
    by (simp only: run_options launch_simps influxDB_only_construction example_controller_fields)
  show "influxClient busy_controller =
      Some \<lparr>client_token = ''secret'', client_url = ''http://localhost:8086''\<rparr>"
    unfolding busy_controller_def
    by (simp only: run_options launch_simps influxDB_only_construction example_controller_fields)
  show "influxDBCallback busy_controller = None"
    by (simp add: busy_controller_def influxDB_only_construction example_controller_fields
        on_INTERACTION_CREATE_def on_error_def incrementCommandError_def ping_interaction_def
        example_client_def)
qed

lemma cycle_tallies:
  assumes "fst (reportInfluxDBMetrics_begin c p m) = Inr cy"
  shows "tally_of ''commandError'' (cycle_points cy) =
           map (\<lambda>e. (Some (fst e), Some (IntField (snd e)))) (Object_entries (commands m))"
    and "tally_of ''command'' (cycle_points cy) =
           map (\<lambda>e. (Some (fst e), Some (IntField (snd e)))) (Object_entries (commands m))"
  unfolding begin_points [OF assms]
  by (simp_all add: tally_of_def add_field_def tag_def new_Point_def stringField_def
      filter_map comp_def)

lemma Object_entries_ping: "Object_entries [(''ping'', c)] = [(''ping'', c)]"
  by (simp add: Object_entries_def is_array_index_def)

text \<open>
  Claim C1 (the \<open>commandError\<close> points carry the entries of \<open>_commandErrors\<close>) fails on the
  code: after three invocations of \<open>ping\<close> and one error of \<open>pong\<close>, a cycle that fulfils
  writes one \<open>commandError\<close> point, for \<open>ping\<close> with count \<open>3\<close>.
\<close>

theorem C1_commandError_points_repeat_commands:
  "Object_entries (commands busy_controller) = [(''ping'', Count 3)] \<and>
   Object_entries (commandErrors busy_controller) = [(''pong'', Count 1)] \<and>
   settled (reportInfluxDBMetrics example_client current_sample all_fulfil busy_controller) = Inr () \<and>
   tally_of ''commandError''
     (points_written (reportInfluxDBMetrics example_client current_sample all_fulfil busy_controller)) =
     [(Some ''ping'', Some (IntField (Count 3)))]"
proof -
  have v: "values_accepted (collect_stats example_client current_sample busy_controller)"
    by (rule example_client_accepted)
      (simp_all only: busy_controller_fields, simp_all add: int_ok_def current_sample_def)
  have "\<exists>cy. fst (reportInfluxDBMetrics_begin example_client current_sample busy_controller) = Inr cy"
    unfolding begin_reaches using v busy_controller_fields(3,4,5) by simp
  then obtain cy where
    cy: "fst (reportInfluxDBMetrics_begin example_client current_sample busy_controller) = Inr cy"
    by blast
  have cb: "cycle_callback cy = None"
    using cy busy_controller_fields(5) unfolding begin_Inr by auto
  have x: "callback_settles all_fulfil = Inr []" "close_settles all_fulfil = Inr ()"
    by (simp_all add: all_fulfil_def)
  have w: "points_written (reportInfluxDBMetrics example_client current_sample all_fulfil busy_controller) =
      cycle_points cy"
    using influx_call_fulfils(2) [OF cy x] cb by (simp add: points_written_def)
  have s: "settled (reportInfluxDBMetrics example_client current_sample all_fulfil busy_controller) = Inr ()"
    using influx_call_fulfils(1) [OF cy x] .
  have e: "Object_entries [(''pong'', Count 1)] = [(''pong'', Count 1)]"
    by (simp add: Object_entries_def is_array_index_def)
  show ?thesis
    using s e by (simp add: w cycle_tallies(1) [OF cy] busy_controller_fields Object_entries_ping)
qed

section \<open>How the tallies move\<close>

text \<open>
  No report call touches a tally; a step of the event loop leaves both alone or applies
  \<open>increment\<close> to one of them; and an entry, once there, is never removed or lowered.
\<close>

lemma count_le_succ: "count_le c (count_succ c)"
  by (cases c) (simp_all add: count_le_def count_succ_def)

lemma count_le_refl: "count_le c c"
  by (cases c) (simp_all add: count_le_def)

lemma increment_keeps_entries:
  assumes "map_of t k = Some c"
  shows "\<exists>c'. map_of (increment t l) k = Some c' \<and> count_le c c'"
proof (cases "l = k")
  case False
  then show ?thesis using assms count_le_refl by (simp add: map_of_increment_other)
next
  case True
  have "map_of (increment t k) k = Some c \<or> map_of (increment t k) k = Some (count_succ c)"
    using assms
    by (auto simp add: increment_def postfix_increment_def nullish_assign_def set_property_def
        get_property_def update_conv' to_numeric_def)
  then show ?thesis using True count_le_refl count_le_succ by auto
qed

lemma report_calls_keep_tallies:
  "commands (metrics_after (reportInfluxDBMetrics c p x m)) = commands m"
  "commandErrors (metrics_after (reportInfluxDBMetrics c p x m)) = commandErrors m"
  "commands (metrics_after (reportTopggMetrics c p x m)) = commands m"
  "commandErrors (metrics_after (reportTopggMetrics c p x m)) = commandErrors m"
  by (auto simp add: reportInfluxDBMetrics_def reportTopggMetrics_def begin_controller
      split: sum.splits)

lemma step_tallies:
  "(commands (controller (step ev rt)) = commands (controller rt) \<and>
    commandErrors (controller (step ev rt)) = commandErrors (controller rt)) \<or>
   (\<exists>k. commands (controller (step ev rt)) = increment (commands (controller rt)) k \<and>
        commandErrors (controller (step ev rt)) = commandErrors (controller rt)) \<or>
   (\<exists>k. commandErrors (controller (step ev rt)) = increment (commandErrors (controller rt)) k \<and>
        commands (controller (step ev rt)) = commands (controller rt))"
  by (cases ev)
    (auto simp add: on_INTERACTION_CREATE_def on_error_def incrementCommandError_def
      setInfluxDBCallback_def)

lemma step_keeps_entries:
  "map_of (commands (controller rt)) k = Some c \<Longrightarrow>
     \<exists>c'. map_of (commands (controller (step ev rt))) k = Some c' \<and> count_le c c'"
  "map_of (commandErrors (controller rt)) k = Some c \<Longrightarrow>
     \<exists>c'. map_of (commandErrors (controller (step ev rt))) k = Some c' \<and> count_le c c'"
  using step_tallies [of ev rt] increment_keeps_entries count_le_refl
  by metis+

text \<open>
  Claim C9 (every operation raises one entry by one or leaves the tallies unchanged)
  fails on the code for the names that \<open>Object.prototype\<close> defines: an error of a command
  named \<open>constructor\<close> creates an entry that holds \<open>NaN\<close>.
\<close>

theorem C9_inherited_name_entry_is_NaN:
  "commandErrors (controller (launch (constructor http_or_https previous_sample influxDB_only))) = [] \<and>
   commandErrors (controller (step (CommandError ChatCommandContext (Some ''constructor''))
      (launch (constructor http_or_https previous_sample influxDB_only)))) = [(''constructor'', NaN)] \<and>
   commandErrors (incrementCommandError ''constructor'' example_controller) = [(''constructor'', NaN)]"
  by (simp add: influxDB_only_construction example_controller_fields on_error_def
      incrementCommandError_def increment_defs)

section \<open>The gateway listener\<close>

text \<open>
  An interaction is counted when it is an application command whose id is registered, and
  ignored otherwise; the count is right for a name that \<open>Object.prototype\<close> does not define.
\<close>

lemma interaction_counted:
  assumes "interaction_type d = ApplicationCommand"
    and "data_id d \<in> set (commandHandler_commands c)"
    and "data_name d \<notin> set Object_prototype"
  shows "map_of (commands (on_INTERACTION_CREATE c d m)) (data_name d) =
           Some (count_succ (case map_of (commands m) (data_name d) of
                               None \<Rightarrow> Count 0 | Some v \<Rightarrow> v))"
    and "k \<noteq> data_name d \<Longrightarrow>
           map_of (commands (on_INTERACTION_CREATE c d m)) k = map_of (commands m) k"
    and "commandErrors (on_INTERACTION_CREATE c d m) = commandErrors m"
  using assms
  by (simp_all add: on_INTERACTION_CREATE_def map_of_increment_safe map_of_increment_other)

lemma interaction_ignored:
  assumes "\<not> (interaction_type d = ApplicationCommand \<and> data_id d \<in> set (commandHandler_commands c))"
  shows "on_INTERACTION_CREATE c d m = m"
  using assms by (auto simp add: on_INTERACTION_CREATE_def)

text \<open>
  Claim C10 (such an interaction raises the entry of its command's name by exactly one)
  fails on the code for a registered command named \<open>constructor\<close>: its first invocation
  leaves \<open>NaN\<close> in the entry.
\<close>

theorem C10_registered_command_not_counted:
  "interaction_type constructor_interaction = ApplicationCommand \<and>
   data_id constructor_interaction \<in> set (commandHandler_commands example_client) \<and>
   commands example_controller = [] \<and>
   commands (on_INTERACTION_CREATE example_client constructor_interaction example_controller) =
     [(''constructor'', NaN)] \<and>
   commands (controller (step (Gateway example_client constructor_interaction)
      (launch (constructor http_or_https previous_sample influxDB_only)))) = [(''constructor'', NaN)]"
  by (simp add: influxDB_only_construction example_controller_fields on_INTERACTION_CREATE_def
      constructor_interaction_def example_client_def increment_defs)

end
